theory Spec2Isabelle
  imports Main "HOL-Library.Word"
begin

unbundle bit_operations_syntax

section \<open>rGuiStyler 3.5: saving and exporting the changed style properties\<close>

text \<open>
  This theory embeds the style serialisation of \<^verbatim>\<open>src/rguistyler.c\<close> (the v3.5 program
  at the top of the file): \<^verbatim>\<open>StyleChangesCounter\<close>, \<^verbatim>\<open>SaveStyle\<close> (binary and text) and
  the two parts of \<^verbatim>\<open>ExportStyleAsCode\<close> that write the property table and the
  compressed font bytes.

  Conventions of the embedding.
  \<^item> A style value is a 32-bit word: \<^verbatim>\<open>styleBackup\<close> is \<^verbatim>\<open>unsigned int\<close>,
    \<^verbatim>\<open>GuiGetStyle\<close> returns \<^verbatim>\<open>int\<close>, and C compares the two after converting to
    \<^verbatim>\<open>unsigned int\<close>, i.e. bit pattern against bit pattern.
  \<^item> Arrays indexed by the loops are total functions from the index; every index the
    loops use is below the array's size.
  \<^item> \<^verbatim>\<open>fwrite\<close> of a \<^verbatim>\<open>short\<close> or an \<^verbatim>\<open>int\<close> writes the bytes of the host, taken
    little-endian (x86, ARM, WebAssembly). A \<^verbatim>\<open>float\<close> is kept as its 32-bit pattern.
  \<^item> A \<^verbatim>\<open>for\<close> loop over \<^verbatim>\<open>0 \<le> i < n\<close> is a \<open>fold\<close> over \<open>[0..<n]\<close> of the
    loop body on the variables the body changes (the file written so far, the counter).
\<close>

subsection \<open>Constants and tables\<close>

text \<open>
  \<^verbatim>\<open>raygui.h\<close> is not among the sources. The three sizes are the lengths of the tables
  the program declares with them: \<^verbatim>\<open>guiControlText[RAYGUI_MAX_CONTROLS]\<close> has 16 names,
  \<^verbatim>\<open>guiPropsText[RAYGUI_MAX_PROPS_BASE]\<close> has 16 names and
  \<^verbatim>\<open>guiPropsExText[RAYGUI_MAX_PROPS_EXTENDED]\<close> has 8 names.
\<close>

definition RAYGUI_MAX_CONTROLS :: nat where
  "RAYGUI_MAX_CONTROLS = 16"

definition RAYGUI_MAX_PROPS_BASE :: nat where
  "RAYGUI_MAX_PROPS_BASE = 16"

definition RAYGUI_MAX_PROPS_EXTENDED :: nat where
  "RAYGUI_MAX_PROPS_EXTENDED = 8"

text \<open>
  \<^verbatim>\<open>DEFAULT\<close> is control 0 (the program itself writes \<^verbatim>\<open>GuiGetStyle(0, j)\<close> for it);
  \<^verbatim>\<open>TEXT_SIZE\<close> and \<^verbatim>\<open>TEXT_SPACING\<close> are the first two extended properties, as the
  table \<^verbatim>\<open>guiPropsExText\<close> lists them.
\<close>

definition DEFAULT :: nat where
  "DEFAULT = 0"

text \<open>\<^verbatim>\<open>BASE_COLOR_NORMAL\<close> is the second base property, as \<^verbatim>\<open>guiPropsText\<close> lists them.\<close>

definition BASE_COLOR_NORMAL :: nat where
  "BASE_COLOR_NORMAL = 1"

definition TEXT_SIZE :: nat where
  "TEXT_SIZE = 16"

definition TEXT_SPACING :: nat where
  "TEXT_SPACING = 17"

text \<open>The enum \<^verbatim>\<open>GuiStyleFileType\<close>.\<close>

definition STYLE_BINARY :: int where
  "STYLE_BINARY = 0"

definition STYLE_AS_CODE :: int where
  "STYLE_AS_CODE = 1"

definition STYLE_TABLE_IMAGE :: int where
  "STYLE_TABLE_IMAGE = 2"

definition STYLE_TEXT :: int where
  "STYLE_TEXT = 3"

definition guiControlText :: "string list" where
  "guiControlText =
    [''DEFAULT'', ''LABEL'', ''BUTTON'', ''TOGGLE'', ''SLIDER'', ''PROGRESSBAR'',
     ''CHECKBOX'', ''COMBOBOX'', ''DROPDOWNBOX'', ''TEXTBOX'', ''VALUEBOX'', ''SPINNER'',
     ''LISTVIEW'', ''COLORPICKER'', ''SCROLLBAR'', ''STATUSBAR'']"

definition guiPropsText :: "string list" where
  "guiPropsText =
    [''BORDER_COLOR_NORMAL'', ''BASE_COLOR_NORMAL'', ''TEXT_COLOR_NORMAL'',
     ''BORDER_COLOR_FOCUSED'', ''BASE_COLOR_FOCUSED'', ''TEXT_COLOR_FOCUSED'',
     ''BORDER_COLOR_PRESSED'', ''BASE_COLOR_PRESSED'', ''TEXT_COLOR_PRESSED'',
     ''BORDER_COLOR_DISABLED'', ''BASE_COLOR_DISABLED'', ''TEXT_COLOR_DISABLED'',
     ''BORDER_WIDTH'', ''TEXT_PADDING'', ''TEXT_ALIGNMENT'', ''RESERVED'']"

definition guiPropsExText :: "string list" where
  "guiPropsExText =
    [''TEXT_SIZE'', ''TEXT_SPACING'', ''LINE_COLOR'', ''BACKGROUND_COLOR'',
     ''EXTENDED01'', ''EXTENDED02'', ''EXTENDED03'', ''EXTENDED04'']"

definition BYTES_TEXT_PER_LINE :: nat where
  "BYTES_TEXT_PER_LINE = 20"

subsection \<open>Bytes and \<^verbatim>\<open>printf\<close> conversions\<close>

type_synonym byte = "8 word"

definition le16 :: "16 word \<Rightarrow> byte list" where
  "le16 w = [ucast w, ucast (drop_bit 8 w)]"

definition le32 :: "32 word \<Rightarrow> byte list" where
  "le32 w = [ucast w, ucast (drop_bit 8 w), ucast (drop_bit 16 w), ucast (drop_bit 24 w)]"

definition hexdigit :: "nat \<Rightarrow> char" where
  "hexdigit d = ''0123456789abcdef'' ! (d mod 16)"

text \<open>Decimal digits of a natural number, most significant first.\<close>

fun dec :: "nat \<Rightarrow> string" where
  "dec n = (if n < 10 then [hexdigit n] else dec (n div 10) @ [hexdigit (n mod 10)])"

declare dec.simps [simp del]

text \<open>
  \<^verbatim>\<open>%i\<close> of an \<^verbatim>\<open>int\<close>, \<^verbatim>\<open>%02i\<close> of a non-negative \<^verbatim>\<open>int\<close> (the loop indices),
  \<^verbatim>\<open>%08x\<close> of a 32-bit value and \<^verbatim>\<open>%02x\<close> of an \<^verbatim>\<open>unsigned char\<close>.
\<close>

definition fmt_i :: "int \<Rightarrow> string" where
  "fmt_i n = (if n < 0 then ''-'' @ dec (nat (- n)) else dec (nat n))"

definition fmt_02i :: "nat \<Rightarrow> string" where
  "fmt_02i n = replicate (2 - length (dec n)) (CHR ''0'') @ dec n"

definition fmt_08x :: "32 word \<Rightarrow> string" where
  "fmt_08x w = map (\<lambda>k. hexdigit (unat (drop_bit (4 * k) w) mod 16)) [7, 6, 5, 4, 3, 2, 1, 0]"

definition fmt_02x :: "byte \<Rightarrow> string" where
  "fmt_02x b = [hexdigit (unat b div 16), hexdigit (unat b mod 16)]"

subsection \<open>The program's state\<close>

text \<open>
  \<^verbatim>\<open>Rectangle\<close> is four floats and \<^verbatim>\<open>GlyphInfo\<close> four ints (its image is never
  written). A texture lives on the GPU; the program reads it back through
  \<^verbatim>\<open>LoadImageFromTexture\<close>.
\<close>

record Rectangle =
  rec_x :: "32 word"
  rec_y :: "32 word"
  rec_width :: "32 word"
  rec_height :: "32 word"

record GlyphInfo =
  glyph_value :: int
  offsetX :: int
  offsetY :: int
  advanceX :: int

record Image =
  data :: "byte list"
  width :: int
  height :: int
  format :: int

type_synonym Texture = nat

record Font =
  baseSize :: int
  glyphCount :: int
  texture :: Texture
  recs :: "nat \<Rightarrow> Rectangle"
  glyphs :: "nat \<Rightarrow> GlyphInfo"

text \<open>
  The functions of raylib that \<^verbatim>\<open>SaveStyle\<close> calls are not among the sources; they
  are parameters of the model. \<^verbatim>\<open>CompressData\<close> returns the compressed bytes and their
  number (the source receives the number through a pointer).
\<close>

record raylib =
  LoadImageFromTexture :: "Texture \<Rightarrow> Image"
  GetPixelDataSize :: "int \<Rightarrow> int \<Rightarrow> int \<Rightarrow> int"
  ImageFormat :: "Image \<Rightarrow> int \<Rightarrow> Image"
  CompressData :: "byte list \<Rightarrow> int \<Rightarrow> byte list \<times> int"
  GetFileName :: "string \<Rightarrow> string"
  PIXELFORMAT_UNCOMPRESSED_GRAY_ALPHA :: int

datatype file_data = Binary "byte list" | Text string

text \<open>
  \<open>guiStyle\<close> is the style table of raygui that \<^verbatim>\<open>GuiGetStyle\<close> reads. \<open>files\<close> is the
  file system, \<open>can_open\<close> says for which names \<^verbatim>\<open>fopen\<close> for writing succeeds, and
  \<open>opened\<close> lists the names \<^verbatim>\<open>fopen\<close> was called with, in order.
\<close>

record state =
  guiStyle :: "nat \<Rightarrow> nat \<Rightarrow> 32 word"
  styleBackup :: "nat \<Rightarrow> 32 word"
  customFont :: Font
  customFontLoaded :: bool
  fontFilePath :: string
  files :: "string \<rightharpoonup> file_data"
  can_open :: "string \<Rightarrow> bool"
  opened :: "string list"

definition GuiGetStyle :: "state \<Rightarrow> nat \<Rightarrow> nat \<Rightarrow> 32 word" where
  "GuiGetStyle st control property = guiStyle st control property"

text \<open>
  \<^verbatim>\<open>fopen(fileName, "wb")\<close> (or \<^verbatim>\<open>"wt"\<close>): whether the handle is non-null, and the state
  with the call recorded. \<^verbatim>\<open>fclose\<close> leaves in the file what was written to the handle.
\<close>

definition fopen :: "state \<Rightarrow> string \<Rightarrow> bool \<times> state" where
  "fopen st fileName = (can_open st fileName, st\<lparr>opened := opened st @ [fileName]\<rparr>)"

definition fclose :: "state \<Rightarrow> string \<Rightarrow> file_data \<Rightarrow> state" where
  "fclose st fileName written = st\<lparr>files := (files st)(fileName \<mapsto> written)\<rparr>"

subsection \<open>\<^verbatim>\<open>StyleChangesCounter\<close>\<close>

definition StyleChangesCounter :: "state \<Rightarrow> int" where
  "StyleChangesCounter st =
    (let changes = 0;
         changes = fold (\<lambda>i changes.
             if styleBackup st i \<noteq> GuiGetStyle st 0 i then changes + 1 else changes)
           [0..<RAYGUI_MAX_PROPS_BASE + RAYGUI_MAX_PROPS_EXTENDED] changes;
         changes = fold (\<lambda>i. fold (\<lambda>j changes.
             if styleBackup st (i * (RAYGUI_MAX_PROPS_BASE + RAYGUI_MAX_PROPS_EXTENDED) + j)
                  \<noteq> GuiGetStyle st i j \<and> GuiGetStyle st i j \<noteq> GuiGetStyle st 0 j
             then changes + 1 else changes)
           [0..<RAYGUI_MAX_PROPS_BASE + RAYGUI_MAX_PROPS_EXTENDED])
           [1..<RAYGUI_MAX_CONTROLS] changes
     in changes)"

subsection \<open>\<^verbatim>\<open>SaveStyle\<close>, binary\<close>

text \<open>The two loops that write the changed properties, appending to the file \<open>f\<close>.\<close>

definition SaveStyle_binary_props :: "state \<Rightarrow> byte list \<Rightarrow> byte list" where
  "SaveStyle_binary_props st f =
    (let controlId = 0;
         f = fold (\<lambda>i f.
             if styleBackup st i \<noteq> GuiGetStyle st 0 i
             then f @ le16 controlId @ le16 (word_of_nat i) @ le32 (GuiGetStyle st 0 i)
             else f)
           [0..<RAYGUI_MAX_PROPS_BASE + RAYGUI_MAX_PROPS_EXTENDED] f
     in fold (\<lambda>i. fold (\<lambda>j f.
             if styleBackup st (i * (RAYGUI_MAX_PROPS_BASE + RAYGUI_MAX_PROPS_EXTENDED) + j)
                  \<noteq> GuiGetStyle st i j \<and> GuiGetStyle st i j \<noteq> GuiGetStyle st 0 j
             then f @ le16 (word_of_nat i) @ le16 (word_of_nat j) @ le32 (GuiGetStyle st i j)
             else f)
           [0..<RAYGUI_MAX_PROPS_BASE + RAYGUI_MAX_PROPS_EXTENDED])
           [1..<RAYGUI_MAX_CONTROLS] f)"

definition rectangle_bytes :: "Rectangle \<Rightarrow> byte list" where
  "rectangle_bytes r = le32 (rec_x r) @ le32 (rec_y r) @ le32 (rec_width r) @ le32 (rec_height r)"

text \<open>The branch \<^verbatim>\<open>if (customFontLoaded)\<close>, with \<^verbatim>\<open>SUPPORT_COMPRESSED_FONT_ATLAS\<close> defined.\<close>

definition SaveStyle_binary_font :: "raylib \<Rightarrow> state \<Rightarrow> byte list \<Rightarrow> byte list" where
  "SaveStyle_binary_font rl st f =
    (let imFont = LoadImageFromTexture rl (texture (customFont st));
         fontParamsSize = 32;
         fontImageUncompSize = GetPixelDataSize rl (width imFont) (height imFont) (format imFont);
         fontGlyphDataSize = glyphCount (customFont st) * 32;
         fontType = 0;
         (imFont, fontImageUncompSize) =
           (if format imFont \<noteq> PIXELFORMAT_UNCOMPRESSED_GRAY_ALPHA rl
            then (let im = ImageFormat rl imFont (PIXELFORMAT_UNCOMPRESSED_GRAY_ALPHA rl)
                  in (im, GetPixelDataSize rl (width im) (height im) (format im)))
            else (imFont, fontImageUncompSize));
         (compData, fontImageCompSize) = CompressData rl (data imFont) fontImageUncompSize;
         fontDataSize = fontParamsSize + fontImageCompSize + fontGlyphDataSize;
         f = f @ le32 (word_of_int fontDataSize)
               @ le32 (word_of_int (baseSize (customFont st)))
               @ le32 (word_of_int (glyphCount (customFont st)))
               @ le32 (word_of_int fontType);
         f = f @ rectangle_bytes \<lparr>rec_x = 0, rec_y = 0, rec_width = 0, rec_height = 0\<rparr>;
         f = f @ le32 (word_of_int fontImageUncompSize)
               @ le32 (word_of_int fontImageCompSize)
               @ le32 (word_of_int (width imFont))
               @ le32 (word_of_int (height imFont))
               @ le32 (word_of_int (format imFont));
         f = f @ take (nat fontImageCompSize) compData;
         f = fold (\<lambda>i f. f @ rectangle_bytes (recs (customFont st) i))
               [0..<nat (glyphCount (customFont st))] f
     in fold (\<lambda>i f. f @ le32 (word_of_int (glyph_value (glyphs (customFont st) i)))
                       @ le32 (word_of_int (offsetX (glyphs (customFont st) i)))
                       @ le32 (word_of_int (offsetY (glyphs (customFont st) i)))
                       @ le32 (word_of_int (advanceX (glyphs (customFont st) i))))
          [0..<nat (glyphCount (customFont st))] f)"

text \<open>Everything written between \<^verbatim>\<open>fopen\<close> and \<^verbatim>\<open>fclose\<close> in the binary branch.\<close>

definition SaveStyle_binary :: "raylib \<Rightarrow> state \<Rightarrow> byte list" where
  "SaveStyle_binary rl st =
    (let signature = map of_char ''rGS '';
         version = 200;
         reserved = 0;
         f = signature @ le16 version @ le16 reserved;
         changedPropCounter = StyleChangesCounter st;
         f = f @ le32 (word_of_int changedPropCounter);
         f = SaveStyle_binary_props st f;
         fontSize = 0
     in if customFontLoaded st then SaveStyle_binary_font rl st f
        else f @ le32 fontSize)"

subsection \<open>\<^verbatim>\<open>SaveStyle\<close>, text\<close>

text \<open>\<^verbatim>\<open>TextFormat("EXT%02i", n)\<close>.\<close>

definition TextFormat_EXT :: "nat \<Rightarrow> string" where
  "TextFormat_EXT n = ''EXT'' @ fmt_02i n"

definition SaveStyle_text_props :: "state \<Rightarrow> string \<Rightarrow> string" where
  "SaveStyle_text_props st f =
    (let f = fold (\<lambda>j f.
             if styleBackup st j \<noteq> GuiGetStyle st 0 j
             then f @ ''p 00 '' @ fmt_02i j @ '' 0x'' @ fmt_08x (GuiGetStyle st 0 j)
                    @ ''    DEFAULT_''
                    @ (if j < RAYGUI_MAX_PROPS_BASE then guiPropsText ! j
                       else TextFormat_EXT (j - RAYGUI_MAX_PROPS_BASE))
                    @ '' \<newline>''
             else f)
           [0..<RAYGUI_MAX_PROPS_BASE + RAYGUI_MAX_PROPS_EXTENDED] f
     in fold (\<lambda>i. fold (\<lambda>j f.
             if styleBackup st (i * (RAYGUI_MAX_PROPS_BASE + RAYGUI_MAX_PROPS_EXTENDED) + j)
                  \<noteq> GuiGetStyle st i j \<and> GuiGetStyle st i j \<noteq> GuiGetStyle st 0 j
             then f @ ''p '' @ fmt_02i i @ '' '' @ fmt_02i j @ '' 0x''
                    @ fmt_08x (GuiGetStyle st i j) @ ''    '' @ guiControlText ! i @ ''_''
                    @ (if j < RAYGUI_MAX_PROPS_BASE then guiPropsText ! j
                       else TextFormat_EXT (j - RAYGUI_MAX_PROPS_BASE))
                    @ '' \<newline>''
             else f)
           [0..<RAYGUI_MAX_PROPS_BASE + RAYGUI_MAX_PROPS_EXTENDED])
           [1..<RAYGUI_MAX_CONTROLS] f)"

definition SaveStyle_text :: "raylib \<Rightarrow> state \<Rightarrow> string" where
  "SaveStyle_text rl st =
    (let f = ''#\<newline># rgs style text file (v3.5) - raygui style file generated using rGuiStyler\<newline>#\<newline>'';
         f = f @ ''# Info:  p <controlId> <propertyId> <propertyValue>  // Property description\<newline>#\<newline>'';
         f = (if customFontLoaded st
              then f @ ''# WARNING: This style uses a custom font, must be provided with style file\<newline>''
                     @ ''f '' @ fmt_i (sint (GuiGetStyle st DEFAULT TEXT_SIZE)) @ '' ''
                     @ fmt_i (sint (GuiGetStyle st DEFAULT TEXT_SPACING)) @ '' ''
                     @ GetFileName rl (fontFilePath st) @ ''\<newline>''
              else f)
     in SaveStyle_text_props st f)"

subsection \<open>\<^verbatim>\<open>SaveStyle\<close>\<close>

text \<open>
  The result is the returned \<^verbatim>\<open>success\<close> and the state afterwards. The two
  \<^verbatim>\<open>if (format == ...)\<close> blocks run one after the other, as in the source.
\<close>

definition SaveStyle :: "raylib \<Rightarrow> state \<Rightarrow> string \<Rightarrow> int \<Rightarrow> bool \<times> state" where
  "SaveStyle rl st fileName fmt =
    (let success = False;
         (success, st) =
           (if fmt = STYLE_BINARY
            then (let (rgsFile, st) = fopen st fileName
                  in if rgsFile
                     then (True, fclose st fileName (Binary (SaveStyle_binary rl st)))
                     else (success, st))
            else (success, st));
         (success, st) =
           (if fmt = STYLE_TEXT
            then (let (rgsFile, st) = fopen st fileName
                  in if rgsFile
                     then (True, fclose st fileName (Text (SaveStyle_text rl st)))
                     else (success, st))
            else (success, st))
     in (success, st))"

subsection \<open>\<^verbatim>\<open>ExportStyleAsCode\<close>: the property table and the font bytes\<close>

text \<open>\<^verbatim>\<open>TextFormat("EXTENDED%02i", n)\<close>.\<close>

definition TextFormat_EXTENDED :: "nat \<Rightarrow> string" where
  "TextFormat_EXTENDED n = ''EXTENDED'' @ fmt_02i n"

definition ExportStyleAsCode_props :: "state \<Rightarrow> string \<Rightarrow> string" where
  "ExportStyleAsCode_props st f =
    (let f = fold (\<lambda>i f.
             if styleBackup st i \<noteq> GuiGetStyle st 0 i
             then (if i < RAYGUI_MAX_PROPS_BASE
                   then f @ ''    { 0, '' @ fmt_i (int i) @ '', 0x''
                          @ fmt_08x (GuiGetStyle st DEFAULT i) @ '' },    // DEFAULT_''
                          @ guiPropsText ! i @ '' \<newline>''
                   else f @ ''    { 0, '' @ fmt_i (int i) @ '', 0x''
                          @ fmt_08x (GuiGetStyle st DEFAULT i) @ '' },    // DEFAULT_''
                          @ guiPropsExText ! (i - RAYGUI_MAX_PROPS_BASE) @ '' \<newline>'')
             else f)
           [0..<RAYGUI_MAX_PROPS_BASE + RAYGUI_MAX_PROPS_EXTENDED] f
     in fold (\<lambda>i. fold (\<lambda>j f.
             if styleBackup st (i * (RAYGUI_MAX_PROPS_BASE + RAYGUI_MAX_PROPS_EXTENDED) + j)
                  \<noteq> GuiGetStyle st i j \<and> GuiGetStyle st i j \<noteq> GuiGetStyle st 0 j
             then (if j < RAYGUI_MAX_PROPS_BASE
                   then f @ ''    { '' @ fmt_i (int i) @ '', '' @ fmt_i (int j) @ '', 0x''
                          @ fmt_08x (GuiGetStyle st i j) @ '' },    // '' @ guiControlText ! i
                          @ ''_'' @ guiPropsText ! j @ '' \<newline>''
                   else f @ ''    { '' @ fmt_i (int i) @ '', '' @ fmt_i (int j) @ '', 0x''
                          @ fmt_08x (GuiGetStyle st i j) @ '' },    // '' @ guiControlText ! i
                          @ ''_'' @ TextFormat_EXTENDED (j - RAYGUI_MAX_PROPS_BASE + 1)
                          @ '' \<newline>'')
             else f)
           [0..<RAYGUI_MAX_PROPS_BASE + RAYGUI_MAX_PROPS_EXTENDED])
           [1..<RAYGUI_MAX_CONTROLS] f)"

text \<open>
  The loop and the closing \<^verbatim>\<open>fprintf\<close> that write the bytes of \<^verbatim>\<open>compData\<close>
  (\<^verbatim>\<open>compDataSize\<close> of them). With no byte at all the source reads \<^verbatim>\<open>compData[-1]\<close>:
  that is \<open>None\<close>.
\<close>

definition ExportStyleAsCode_fontData :: "byte list \<Rightarrow> string \<Rightarrow> string option" where
  "ExportStyleAsCode_fontData compData f =
    (let compDataSize = int (length compData);
         f = fold (\<lambda>i f.
             f @ (if i mod BYTES_TEXT_PER_LINE = 0
                  then ''0x'' @ fmt_02x (compData ! i) @ '',\<newline>    ''
                  else ''0x'' @ fmt_02x (compData ! i) @ '', ''))
           [0..<nat (compDataSize - 1)] f
     in if compDataSize - 1 < 0 then None
        else Some (f @ ''0x'' @ fmt_02x (compData ! nat (compDataSize - 1)) @ '' };\<newline>\<newline>''))"

subsection \<open>The Change-Set of the specification\<close>

text \<open>
  The specification (section 4.2) computes the Change-Set from the store and the
  baseline: first the properties of DEFAULT that differ from the baseline, by property
  index, then for each control from 1 on, by control index, the properties that differ
  from the baseline and from the current DEFAULT value, by property index. This
  definition follows the specification's words; the loops of the source are compared with
  it below.
\<close>

definition computeChanges ::
  "(nat \<Rightarrow> nat \<Rightarrow> 32 word) \<Rightarrow> (nat \<Rightarrow> nat \<Rightarrow> 32 word) \<Rightarrow> (nat \<times> nat \<times> 32 word) list" where
  "computeChanges store baseline =
     [(0, j, store 0 j). j \<leftarrow> [0..<RAYGUI_MAX_PROPS_BASE + RAYGUI_MAX_PROPS_EXTENDED],
        baseline 0 j \<noteq> store 0 j]
     @ [(i, j, store i j). i \<leftarrow> [1..<RAYGUI_MAX_CONTROLS],
        j \<leftarrow> [0..<RAYGUI_MAX_PROPS_BASE + RAYGUI_MAX_PROPS_EXTENDED],
        baseline i j \<noteq> store i j \<and> store i j \<noteq> store 0 j]"

text \<open>The Change-Set of a program state: the store is raygui's table, the baseline is
  \<^verbatim>\<open>styleBackup\<close>, stored row by row.\<close>

definition ChangeSet :: "state \<Rightarrow> (nat \<times> nat \<times> 32 word) list" where
  "ChangeSet st = computeChanges (guiStyle st)
     (\<lambda>i j. styleBackup st (i * (RAYGUI_MAX_PROPS_BASE + RAYGUI_MAX_PROPS_EXTENDED) + j))"

text \<open>
  What each writer makes of one entry: the 8-byte record of the binary file, the line of
  the text file and the line of the exported code.
\<close>

definition bin_record :: "nat \<times> nat \<times> 32 word \<Rightarrow> byte list" where
  "bin_record e = (case e of (i, j, v) \<Rightarrow> le16 (word_of_nat i) @ le16 (word_of_nat j) @ le32 v)"

definition text_line :: "nat \<times> nat \<times> 32 word \<Rightarrow> string" where
  "text_line e = (case e of (i, j, v) \<Rightarrow>
     ''p '' @ fmt_02i i @ '' '' @ fmt_02i j @ '' 0x'' @ fmt_08x v @ ''    ''
       @ guiControlText ! i @ ''_''
       @ (if j < RAYGUI_MAX_PROPS_BASE then guiPropsText ! j
          else ''EXT'' @ fmt_02i (j - RAYGUI_MAX_PROPS_BASE))
       @ '' \<newline>'')"

definition code_line :: "nat \<times> nat \<times> 32 word \<Rightarrow> string" where
  "code_line e = (case e of (i, j, v) \<Rightarrow>
     ''    { '' @ fmt_i (int i) @ '', '' @ fmt_i (int j) @ '', 0x'' @ fmt_08x v
       @ '' },    // '' @ guiControlText ! i @ ''_''
       @ (if j < RAYGUI_MAX_PROPS_BASE then guiPropsText ! j
          else if i = 0 then guiPropsExText ! (j - RAYGUI_MAX_PROPS_BASE)
          else ''EXTENDED'' @ fmt_02i (j - RAYGUI_MAX_PROPS_BASE + 1))
       @ '' \<newline>'')"

text \<open>
  Reading records back from bytes, eight at a time: the inverse of \<open>bin_record\<close>, used to
  say which entries a sequence of written bytes holds.
\<close>

fun from_le16 :: "byte list \<Rightarrow> 16 word" where
  "from_le16 [a, b] = ucast a OR push_bit 8 (ucast b)"
| "from_le16 _ = 0"

fun from_le32 :: "byte list \<Rightarrow> 32 word" where
  "from_le32 [a, b, c, d] =
     ucast a OR push_bit 8 (ucast b) OR push_bit 16 (ucast c) OR push_bit 24 (ucast d)"
| "from_le32 _ = 0"

fun read_records :: "byte list \<Rightarrow> (nat \<times> nat \<times> 32 word) list" where
  "read_records (c0 # c1 # p0 # p1 # v0 # v1 # v2 # v3 # rest) =
     (unat (from_le16 [c0, c1]), unat (from_le16 [p0, p1]), from_le32 [v0, v1, v2, v3])
       # read_records rest"
| "read_records _ = []"

text \<open>The order of the entries: by control index, then by property index.\<close>

definition entry_before :: "nat \<times> nat \<times> 32 word \<Rightarrow> nat \<times> nat \<times> 32 word \<Rightarrow> bool" where
  "entry_before a b = (fst a < fst b \<or> (fst a = fst b \<and> fst (snd a) < fst (snd b)))"

subsection \<open>Example states\<close>

text \<open>
  A stand-in for raylib: an empty atlas already in gray+alpha (format 2), two bytes per
  pixel, no compression, file names taken as they are.
\<close>

definition rl0 :: raylib where
  "rl0 = \<lparr>LoadImageFromTexture = (\<lambda>t. \<lparr>data = [], width = 0, height = 0, format = 2\<rparr>),
          GetPixelDataSize = (\<lambda>w h f. w * h * 2),
          ImageFormat = (\<lambda>im f. im\<lparr>format := f\<rparr>),
          CompressData = (\<lambda>d n. (d, int (length d))),
          GetFileName = (\<lambda>p. p),
          PIXELFORMAT_UNCOMPRESSED_GRAY_ALPHA = 2\<rparr>"

definition font0 :: Font where
  "font0 = \<lparr>baseSize = 10, glyphCount = 0, texture = 0,
            recs = (\<lambda>i. \<lparr>rec_x = 0, rec_y = 0, rec_width = 0, rec_height = 0\<rparr>),
            glyphs = (\<lambda>i. \<lparr>glyph_value = 0, offsetX = 0, offsetY = 0, advanceX = 0\<rparr>)\<rparr>"

text \<open>
  A session right after its start: store and baseline agree (every value 0), no custom
  font, and only \<^verbatim>\<open>style.rgs\<close> can be opened for writing.
\<close>

definition st_fresh :: state where
  "st_fresh = \<lparr>guiStyle = (\<lambda>i j. 0), styleBackup = (\<lambda>k. 0), customFont = font0,
               customFontLoaded = False, fontFilePath = [], files = Map.empty,
               can_open = (\<lambda>n. n = ''style.rgs''), opened = []\<rparr>"

text \<open>
  LABEL (1) and BUTTON (2) both have TEXT_COLOR_NORMAL (2) set to \<^verbatim>\<open>0x112233ff\<close>; TOGGLE (3)
  has BORDER_WIDTH (12) at the value of DEFAULT, 0, where the baseline had 1.
\<close>

definition st_siblings :: state where
  "st_siblings = st_fresh
     \<lparr>guiStyle := (\<lambda>i j. if (i = 1 \<or> i = 2) \<and> j = 2 then 0x112233FF else 0),
      styleBackup := (\<lambda>k. if k = 3 * 24 + 12 then 1 else 0)\<rparr>"

text \<open>
  DEFAULT has BASE_COLOR_NORMAL (1) and the extended property 17 changed, LABEL (1) and
  BUTTON (2) have TEXT_COLOR_NORMAL (2) changed; the baseline is 0 everywhere.
\<close>

definition st_mixed :: state where
  "st_mixed = st_fresh
     \<lparr>guiStyle := (\<lambda>i j. if i = 0 \<and> j = 1 then 0x202020FF
                         else if i = 0 \<and> j = 17 then 3
                         else if (i = 1 \<or> i = 2) \<and> j = 2 then 0x112233FF else 0)\<rparr>"

text \<open>
  Every control has BASE_COLOR_NORMAL \<^verbatim>\<open>0xffffffff\<close> in the baseline and everything else 0;
  the store differs from the baseline in one place, DEFAULT's BASE_COLOR_NORMAL, now
  \<^verbatim>\<open>0x202020ff\<close>.
\<close>

definition st_dark :: state where
  "st_dark = st_fresh
     \<lparr>guiStyle := (\<lambda>i j. if i = 0 \<and> j = 1 then 0x202020FF
                         else if j = 1 then 0xFFFFFFFF else 0),
      styleBackup := (\<lambda>k. if k mod 24 = 1 then 0xFFFFFFFF else 0)\<rparr>"

subsection \<open>The parts of the text file\<close>

text \<open>
  The strings of the two \<^verbatim>\<open>fprintf\<close> calls that open the text file, of the warning and
  of the \<^verbatim>\<open>f\<close> line written when a custom font is loaded.
\<close>

definition text_header :: string where
  "text_header =
     ''#\<newline># rgs style text file (v3.5) - raygui style file generated using rGuiStyler\<newline>#\<newline>''
     @ ''# Info:  p <controlId> <propertyId> <propertyValue>  // Property description\<newline>#\<newline>''"

definition text_font_warning :: string where
  "text_font_warning =
     ''# WARNING: This style uses a custom font, must be provided with style file\<newline>''"

definition text_font_line :: "raylib \<Rightarrow> state \<Rightarrow> string" where
  "text_font_line rl st =
     ''f '' @ fmt_i (sint (GuiGetStyle st DEFAULT TEXT_SIZE)) @ '' ''
     @ fmt_i (sint (GuiGetStyle st DEFAULT TEXT_SPACING)) @ '' ''
     @ GetFileName rl (fontFilePath st) @ ''\<newline>''"

text \<open>
  A session right after loading a style with the custom font \<^verbatim>\<open>font.ttf\<close>, text size 10
  and spacing 1: store and baseline agree.
\<close>

definition st_font :: state where
  "st_font = st_fresh
     \<lparr>guiStyle := (\<lambda>i j. if i = 0 \<and> j = 16 then 10 else if i = 0 \<and> j = 17 then 1 else 0),
      styleBackup := (\<lambda>k. if k = 16 then 10 else if k = 17 then 1 else 0),
      customFontLoaded := True, fontFilePath := ''font.ttf''\<rparr>"

subsection \<open>Lines of the exported byte array\<close>

text \<open>
  The number of hexadecimal literals on each line of a text: a literal is counted at its
  \<open>x\<close> (no hexadecimal digit and no separator is an \<open>x\<close>), a line ends at a newline, and
  \<open>n\<close> literals of the current line have been seen so far. The last number is that of
  the text after the last newline.
\<close>

fun entries_per_line :: "string \<Rightarrow> nat \<Rightarrow> nat list" where
  "entries_per_line [] n = [n]"
| "entries_per_line (c # cs) n =
     (if c = CHR 0x0A then n # entries_per_line cs 0
      else if c = CHR ''x'' then entries_per_line cs (Suc n)
      else entries_per_line cs n)"

text \<open>The separators the source writes between and after the literals.\<close>

definition separator_chars :: "char set" where
  "separator_chars = set '', \<newline>};''"

text \<open>
  The literal written for one byte, \<^verbatim>\<open>0x%02x\<close>, and the text one turn of the loop writes
  for the byte at index \<open>i\<close>.
\<close>

definition lit :: "byte \<Rightarrow> string" where
  "lit b = ''0x'' @ fmt_02x b"

definition piece :: "byte list \<Rightarrow> nat \<Rightarrow> string" where
  "piece compData i =
     lit (compData ! i) @ (if i mod BYTES_TEXT_PER_LINE = 0 then '',\<newline>    '' else '', '')"

section \<open>Properties\<close>

subsection \<open>The loops of the source write the Change-Set\<close>

lemma fold_count:
  "fold (\<lambda>x (c::int). if P x then c + 1 else c) xs c = c + int (length (filter P xs))"
  by (induction xs arbitrary: c) simp_all

lemma fold_fold_count:
  "fold (\<lambda>x. fold (\<lambda>y (c::int). if P x y then c + 1 else c) ys) xs c
     = c + int (length (concat (map (\<lambda>x. filter (P x) ys) xs)))"
  by (induction xs arbitrary: c) (simp_all add: fold_count)

lemma concat_map_if: "concat (map (\<lambda>x. if P x then [g x] else []) xs) = map g (filter P xs)"
  by (induction xs) simp_all

lemma ChangeSet_alt:
  "ChangeSet st =
     map (\<lambda>j. (0, j, GuiGetStyle st 0 j))
       (filter (\<lambda>j. styleBackup st j \<noteq> GuiGetStyle st 0 j)
          [0..<RAYGUI_MAX_PROPS_BASE + RAYGUI_MAX_PROPS_EXTENDED])
     @ concat (map (\<lambda>i. map (\<lambda>j. (i, j, GuiGetStyle st i j))
         (filter (\<lambda>j. styleBackup st (i * (RAYGUI_MAX_PROPS_BASE + RAYGUI_MAX_PROPS_EXTENDED) + j)
                  \<noteq> GuiGetStyle st i j \<and> GuiGetStyle st i j \<noteq> GuiGetStyle st 0 j)
            [0..<RAYGUI_MAX_PROPS_BASE + RAYGUI_MAX_PROPS_EXTENDED]))
         [1..<RAYGUI_MAX_CONTROLS])"
  unfolding ChangeSet_def computeChanges_def GuiGetStyle_def
  by (simp add: concat_map_if)

lemma concat_map_concat_map:
  "concat (map f (concat (map g xs))) = concat (map (\<lambda>x. concat (map f (g x))) xs)"
  by (induction xs) simp_all

lemma StyleChangesCounter_eq:
  "StyleChangesCounter st = int (length (ChangeSet st))"
  unfolding StyleChangesCounter_def ChangeSet_alt Let_def
  by (simp add: fold_count fold_fold_count length_concat comp_def)


lemma fmt_02i_0: "fmt_02i 0 = ''00''"
  by (simp add: fmt_02i_def hexdigit_def dec.simps)

lemma fmt_i_0: "fmt_i 0 = ''0''"
  by (simp add: fmt_i_def hexdigit_def dec.simps)

lemma guiControlText_0: "guiControlText ! 0 = ''DEFAULT''"
  by (simp add: guiControlText_def)

lemma fold_emit_body:
  assumes "\<And>x f. x \<in> set xs \<Longrightarrow> b x f = (if P x then f @ e x else f)"
  shows "fold b xs f = f @ concat (map e (filter P xs))"
  using assms by (induction xs arbitrary: f) simp_all

lemma fold_fold_emit_body:
  assumes "\<And>x y f. x \<in> set xs \<Longrightarrow> y \<in> set ys \<Longrightarrow> b x y f = (if P x y then f @ e x y else f)"
  shows "fold (\<lambda>x. fold (b x) ys) xs f
     = f @ concat (map (\<lambda>x. concat (map (e x) (filter (P x) ys))) xs)"
  using assms
proof (induction xs arbitrary: f)
  case Nil
  then show ?case by simp
next
  case (Cons x xs)
  have "fold (b x) ys f = f @ concat (map (e x) (filter (P x) ys))"
    by (rule fold_emit_body) (simp add: Cons.prems)
  then show ?case
    using Cons by simp
qed

lemma two_loops_emit:
  assumes "\<And>x f. x \<in> set zs \<Longrightarrow> b1 x f = (if P1 x then f @ r (g1 x) else f)"
    and "\<And>x y f. x \<in> set xs \<Longrightarrow> y \<in> set ys \<Longrightarrow> b2 x y f = (if P2 x y then f @ r (g2 x y) else f)"
  shows "fold (\<lambda>x. fold (b2 x) ys) xs (fold b1 zs f)
    = f @ concat (map r (map g1 (filter P1 zs)
                         @ concat (map (\<lambda>x. map (g2 x) (filter (P2 x) ys)) xs)))"
proof -
  have 1: "fold b1 zs f = f @ concat (map (\<lambda>x. r (g1 x)) (filter P1 zs))"
    by (rule fold_emit_body) (simp add: assms(1))
  have 2: "fold (\<lambda>x. fold (b2 x) ys) xs h
     = h @ concat (map (\<lambda>x. concat (map (\<lambda>y. r (g2 x y)) (filter (P2 x) ys))) xs)" for h
    by (rule fold_fold_emit_body) (simp add: assms(2))
  show ?thesis
    unfolding 1 2 by (simp add: concat_map_concat_map comp_def)
qed

lemma SaveStyle_text_props_eq:
  "SaveStyle_text_props st f = f @ concat (map text_line (ChangeSet st))"
  unfolding SaveStyle_text_props_def ChangeSet_alt Let_def
  by (rule two_loops_emit)
     (simp_all add: text_line_def fmt_02i_0 guiControlText_0 TextFormat_EXT_def)

lemma ExportStyleAsCode_props_eq:
  "ExportStyleAsCode_props st f = f @ concat (map code_line (ChangeSet st))"
  unfolding ExportStyleAsCode_props_def ChangeSet_alt Let_def
  by (rule two_loops_emit)
     (simp_all add: code_line_def fmt_i_0 guiControlText_0 DEFAULT_def TextFormat_EXTENDED_def)

lemma SaveStyle_binary_props_eq:
  "SaveStyle_binary_props st f = f @ concat (map bin_record (ChangeSet st))"
  unfolding SaveStyle_binary_props_def ChangeSet_alt Let_def
  by (rule two_loops_emit) (simp_all add: bin_record_def)

lemma ChangeSet_set:
  "(i, j, v) \<in> set (ChangeSet st) \<longleftrightarrow>
     j < RAYGUI_MAX_PROPS_BASE + RAYGUI_MAX_PROPS_EXTENDED \<and> v = GuiGetStyle st i j \<and>
     (if i = 0 then styleBackup st j \<noteq> GuiGetStyle st 0 j
      else i < RAYGUI_MAX_CONTROLS
        \<and> styleBackup st (i * (RAYGUI_MAX_PROPS_BASE + RAYGUI_MAX_PROPS_EXTENDED) + j)
             \<noteq> GuiGetStyle st i j
        \<and> GuiGetStyle st i j \<noteq> GuiGetStyle st 0 j)"
  unfolding ChangeSet_alt by auto

lemma sorted_wrt_concat_map:
  assumes "sorted_wrt Q xs"
    and "\<And>x. x \<in> set xs \<Longrightarrow> sorted_wrt R (f x)"
    and "\<And>x y a b. Q x y \<Longrightarrow> a \<in> set (f x) \<Longrightarrow> b \<in> set (f y) \<Longrightarrow> R a b"
  shows "sorted_wrt R (concat (map f xs))"
  using assms by (induction xs) (auto simp: sorted_wrt_append)

lemma ChangeSet_sorted: "sorted_wrt entry_before (ChangeSet st)"
proof -
  have 1: "sorted_wrt entry_before (map (\<lambda>j. (i, j, g j)) (filter P [0..<n]))" for i g P n
    by (simp add: sorted_wrt_map entry_before_def sorted_wrt_filter)
  have 2: "sorted_wrt entry_before
     (concat (map (\<lambda>i. map (\<lambda>j. (i, j, g i j)) (filter (P i) [0..<n])) [a..<m]))" for g P n a m
    by (rule sorted_wrt_concat_map[where Q = "(<)"]) (auto simp: 1 entry_before_def)
  show ?thesis
    unfolding ChangeSet_alt sorted_wrt_append
    by (auto simp: 1 2 entry_before_def)
qed

lemma length_bin_record: "length (bin_record e) = 8"
  by (cases e) (simp add: bin_record_def le16_def le32_def)

lemma length_concat_bin: "length (concat (map bin_record es)) = 8 * length es"
  by (induction es) (simp_all add: length_bin_record)

lemma length_filter_upt_le: "length (filter P [0..<n]) \<le> n"
  using length_filter_le[of P "[0..<n]"] by simp

lemma length_concat_filter_upt_le:
  "length (concat (map (\<lambda>i. map (g i) (filter (P i) [0..<n])) xs)) \<le> length xs * n"
proof (induction xs)
  case Nil
  then show ?case by simp
next
  case (Cons x xs)
  then show ?case
    using length_filter_upt_le[of "P x" n] by simp
qed

lemma length_ChangeSet_le: "length (ChangeSet st) \<le> 384"
proof -
  let ?n = "RAYGUI_MAX_PROPS_BASE + RAYGUI_MAX_PROPS_EXTENDED"
  let ?P = "\<lambda>j. styleBackup st j \<noteq> GuiGetStyle st 0 j"
  let ?Q = "\<lambda>i j. styleBackup st (i * ?n + j) \<noteq> GuiGetStyle st i j
               \<and> GuiGetStyle st i j \<noteq> GuiGetStyle st 0 j"
  let ?g = "\<lambda>i j. (i, j, GuiGetStyle st i j)"
  have a: "length (filter ?P [0..<?n]) \<le> 24"
    using length_filter_upt_le[of ?P ?n]
    by (simp add: RAYGUI_MAX_PROPS_BASE_def RAYGUI_MAX_PROPS_EXTENDED_def)
  have b: "length (concat (map (\<lambda>i. map (?g i) (filter (?Q i) [0..<?n])) [1..<RAYGUI_MAX_CONTROLS]))
             \<le> 360"
    using length_concat_filter_upt_le[of ?g ?Q ?n "[1..<RAYGUI_MAX_CONTROLS]"]
    by (simp add: RAYGUI_MAX_PROPS_BASE_def RAYGUI_MAX_PROPS_EXTENDED_def RAYGUI_MAX_CONTROLS_def)
  have "length (ChangeSet st) = length (filter ?P [0..<?n])
      + length (concat (map (\<lambda>i. map (?g i) (filter (?Q i) [0..<?n])) [1..<RAYGUI_MAX_CONTROLS]))"
    unfolding ChangeSet_alt by simp
  with a b show ?thesis by linarith
qed

lemma ChangeSet_siblings: "ChangeSet st_siblings = [(1, 2, 0x112233FF), (2, 2, 0x112233FF)]"
  by code_simp

subsection \<open>The written records can be read back\<close>

lemma ChangeSet_bounds:
  "\<forall>e \<in> set (ChangeSet st).
     fst e < RAYGUI_MAX_CONTROLS \<and> fst (snd e) < RAYGUI_MAX_PROPS_BASE + RAYGUI_MAX_PROPS_EXTENDED"
  by (auto simp: ChangeSet_set RAYGUI_MAX_CONTROLS_def split: if_splits)

lemma from_le32_le32: "from_le32 (le32 w) = w"
  unfolding le32_def from_le32.simps
proof (rule bit_word_eqI)
  fix n assume "n < LENGTH(32)"
  then have n: "n < 32" by simp
  have a: "8 + (n - 8) = n" if "8 \<le> n" using that by simp
  have b: "16 + (n - 16) = n" if "16 \<le> n" using that by simp
  have c: "24 + (n - 24) = n" if "24 \<le> n" using that by simp
  consider "n < 8" | "8 \<le> n" "n < 16" | "16 \<le> n" "n < 24" | "24 \<le> n"
    by linarith
  then show "bit (ucast (ucast w :: byte) OR push_bit 8 (ucast (ucast (drop_bit 8 w) :: byte))
        OR push_bit 16 (ucast (ucast (drop_bit 16 w) :: byte))
        OR push_bit 24 (ucast (ucast (drop_bit 24 w) :: byte)) :: 32 word) n = bit w n"
    using n by cases (auto simp: bit_simps a b c)
qed

lemma from_le16_le16: "from_le16 (le16 w) = w"
  unfolding le16_def from_le16.simps
  by (rule bit_word_eqI) (auto simp: bit_simps)

lemma unat_word16_of_nat: "i < 65536 \<Longrightarrow> unat (word_of_nat i :: 16 word) = i"
  by (simp add: unsigned_of_nat take_bit_nat_eq_self)

lemma read_records_bin_record:
  assumes "i < 65536" and "j < 65536"
  shows "read_records (bin_record (i, j, v) @ rest) = (i, j, v) # read_records rest"
proof -
  have "read_records (le16 a @ le16 b @ le32 v @ rest)
      = (unat (from_le16 (le16 a)), unat (from_le16 (le16 b)), from_le32 (le32 v))
          # read_records rest" for a b
    by (simp add: le16_def le32_def)
  then show ?thesis
    using assms
    by (simp add: bin_record_def from_le16_le16 from_le32_le32 unat_word16_of_nat)
qed

lemma read_records_concat:
  assumes "\<forall>e \<in> set es. fst e < 65536 \<and> fst (snd e) < 65536"
  shows "read_records (concat (map bin_record es)) = es"
  using assms
proof (induction es)
  case Nil
  then show ?case by simp
next
  case (Cons e es)
  obtain i j v where e: "e = (i, j, v)" by (cases e)
  with Cons.prems have "i < 65536" "j < 65536" by simp_all
  then show ?case
    using Cons by (simp add: e read_records_bin_record)
qed

lemma read_records_props: "read_records (SaveStyle_binary_props st []) = ChangeSet st"
proof -
  have "\<forall>e \<in> set (ChangeSet st). fst e < 65536 \<and> fst (snd e) < 65536"
    using ChangeSet_bounds[of st]
    by (auto simp: RAYGUI_MAX_CONTROLS_def RAYGUI_MAX_PROPS_BASE_def RAYGUI_MAX_PROPS_EXTENDED_def)
  then show ?thesis
    by (simp add: SaveStyle_binary_props_eq read_records_concat)
qed

subsection \<open>Which entries are in the Change-Set\<close>

text \<open>
  C1. For a control \<open>i\<close> other than DEFAULT (\<open>1 \<le> i < RAYGUI_MAX_CONTROLS\<close>) and a
  property index \<open>j\<close>, the entry \<open>(i, j, v)\<close> is in the Change-Set if and only if \<open>v\<close> is
  the current value \<open>GuiGetStyle(i, j)\<close> and that value differs from the baseline
  \<open>styleBackup[i*(base+ext)+j]\<close> and from the current DEFAULT value \<open>GuiGetStyle(0, j)\<close>.
  So a value equal to the current DEFAULT value is never emitted, even if it changed
  from the baseline, and the test never looks at a sibling control. The Change-Set is
  what the loops of \<open>SaveStyle\<close> (binary and text) and of \<open>ExportStyleAsCode\<close> write, entry
  by entry, and what \<open>StyleChangesCounter\<close> counts; read back, the records of the binary
  file are the Change-Set.
\<close>

theorem C1_change_set_membership:
  assumes "1 \<le> i" and "i < RAYGUI_MAX_CONTROLS"
    and "j < RAYGUI_MAX_PROPS_BASE + RAYGUI_MAX_PROPS_EXTENDED"
  shows "((i, j, v) \<in> set (ChangeSet st) \<longleftrightarrow>
            v = GuiGetStyle st i j
          \<and> GuiGetStyle st i j
               \<noteq> styleBackup st (i * (RAYGUI_MAX_PROPS_BASE + RAYGUI_MAX_PROPS_EXTENDED) + j)
          \<and> GuiGetStyle st i j \<noteq> GuiGetStyle st 0 j)
       \<and> SaveStyle_binary_props st fb = fb @ concat (map bin_record (ChangeSet st))
       \<and> SaveStyle_text_props st ft = ft @ concat (map text_line (ChangeSet st))
       \<and> ExportStyleAsCode_props st fc = fc @ concat (map code_line (ChangeSet st))
       \<and> StyleChangesCounter st = int (length (ChangeSet st))
       \<and> read_records (SaveStyle_binary_props st []) = ChangeSet st"
proof -
  have "(i, j, v) \<in> set (ChangeSet st) \<longleftrightarrow>
            v = GuiGetStyle st i j
          \<and> GuiGetStyle st i j
               \<noteq> styleBackup st (i * (RAYGUI_MAX_PROPS_BASE + RAYGUI_MAX_PROPS_EXTENDED) + j)
          \<and> GuiGetStyle st i j \<noteq> GuiGetStyle st 0 j"
    using assms by (auto simp: ChangeSet_set)
  then show ?thesis
    using read_records_props[of st]
    by (simp only: SaveStyle_binary_props_eq SaveStyle_text_props_eq
        ExportStyleAsCode_props_eq StyleChangesCounter_eq simp_thms)
qed

text \<open>
  In \<open>st_siblings\<close> the entries of LABEL and BUTTON are both in the Change-Set, and the
  entry of TOGGLE, whose value went from 1 to the DEFAULT value 0, is not.
\<close>

theorem C1_change_set_membership_witness:
  "(1::nat) \<le> 2 \<and> 2 < RAYGUI_MAX_CONTROLS
     \<and> (2::nat) < RAYGUI_MAX_PROPS_BASE + RAYGUI_MAX_PROPS_EXTENDED
     \<and> (1, 2, 0x112233FF) \<in> set (ChangeSet st_siblings)
     \<and> (2, 2, 0x112233FF) \<in> set (ChangeSet st_siblings)
     \<and> (3, 12, 0) \<notin> set (ChangeSet st_siblings)
     \<and> GuiGetStyle st_siblings 3 12 \<noteq> styleBackup st_siblings (3 * 24 + 12)
     \<and> StyleChangesCounter st_siblings = 2"
proof -
  have c: "(2::nat) < RAYGUI_MAX_CONTROLS" "(1::nat) < RAYGUI_MAX_CONTROLS"
    "(3::nat) < RAYGUI_MAX_CONTROLS"
    by (simp_all add: RAYGUI_MAX_CONTROLS_def)
  have p: "(2::nat) < RAYGUI_MAX_PROPS_BASE + RAYGUI_MAX_PROPS_EXTENDED"
    "(12::nat) < RAYGUI_MAX_PROPS_BASE + RAYGUI_MAX_PROPS_EXTENDED"
    by (simp_all add: RAYGUI_MAX_PROPS_BASE_def RAYGUI_MAX_PROPS_EXTENDED_def)
  have v: "GuiGetStyle st_siblings 1 2 = 0x112233FF" "GuiGetStyle st_siblings 2 2 = 0x112233FF"
    "GuiGetStyle st_siblings 0 2 = 0" "GuiGetStyle st_siblings 3 12 = 0"
    "GuiGetStyle st_siblings 0 12 = 0"
    "styleBackup st_siblings (1 * (RAYGUI_MAX_PROPS_BASE + RAYGUI_MAX_PROPS_EXTENDED) + 2) = 0"
    "styleBackup st_siblings (2 * (RAYGUI_MAX_PROPS_BASE + RAYGUI_MAX_PROPS_EXTENDED) + 2) = 0"
    "styleBackup st_siblings (3 * 24 + 12) = 1"
    by (simp_all add: GuiGetStyle_def st_siblings_def st_fresh_def
        RAYGUI_MAX_PROPS_BASE_def RAYGUI_MAX_PROPS_EXTENDED_def)
  have 1: "(1, 2, 0x112233FF) \<in> set (ChangeSet st_siblings)"
    using C1_change_set_membership[OF _ c(2) p(1), of "0x112233FF" st_siblings] v by simp
  have 2: "(2, 2, 0x112233FF) \<in> set (ChangeSet st_siblings)"
    using C1_change_set_membership[OF _ c(1) p(1), of "0x112233FF" st_siblings] v by simp
  have 3: "(3, 12, 0) \<notin> set (ChangeSet st_siblings)"
    using C1_change_set_membership[OF _ c(3) p(2), of 0 st_siblings] v by simp
  have 4: "StyleChangesCounter st_siblings = 2"
    using C1_change_set_membership[OF _ c(1) p(1), of "0x112233FF" st_siblings]
    by (simp add: ChangeSet_siblings)
  show ?thesis
    using c p v 1 2 3 4 by simp
qed

lemma ChangeSet_mixed:
  "ChangeSet st_mixed = [(0, 1, 0x202020FF), (0, 17, 3), (1, 2, 0x112233FF), (2, 2, 0x112233FF)]"
  by code_simp

lemmas render_defs = bin_record_def text_line_def code_line_def le16_def le32_def
  fmt_i_def fmt_02i_def fmt_08x_def fmt_02x_def hexdigit_def drop_bit_eq_div dec.simps
  guiControlText_def guiPropsText_def guiPropsExText_def
  RAYGUI_MAX_PROPS_BASE_def RAYGUI_MAX_PROPS_EXTENDED_def RAYGUI_MAX_CONTROLS_def

subsection \<open>The order of the entries\<close>

text \<open>
  C2. The binary and the text branch of \<open>SaveStyle\<close> and \<open>ExportStyleAsCode\<close> write the
  entries of one and the same list, the Change-Set, each in the order of that list. The
  list is strictly ascending by control index and, within a control, by property index:
  so the changed properties of DEFAULT (control 0) come first, by ascending property
  index over the whole range of base and extended indices, then the controls 1 to
  \<open>RAYGUI_MAX_CONTROLS - 1\<close> by ascending index, each with its qualifying properties by
  ascending property index.
\<close>

theorem C2_emission_order:
  "SaveStyle_binary_props st fb = fb @ concat (map bin_record (ChangeSet st))
   \<and> SaveStyle_text_props st ft = ft @ concat (map text_line (ChangeSet st))
   \<and> ExportStyleAsCode_props st fc = fc @ concat (map code_line (ChangeSet st))
   \<and> sorted_wrt entry_before (ChangeSet st)
   \<and> ((0, j, v) \<in> set (ChangeSet st) \<longleftrightarrow>
        j < RAYGUI_MAX_PROPS_BASE + RAYGUI_MAX_PROPS_EXTENDED \<and> v = GuiGetStyle st 0 j
        \<and> styleBackup st j \<noteq> GuiGetStyle st 0 j)
   \<and> (\<forall>e \<in> set (ChangeSet st).
        fst e < RAYGUI_MAX_CONTROLS
        \<and> fst (snd e) < RAYGUI_MAX_PROPS_BASE + RAYGUI_MAX_PROPS_EXTENDED)"
proof -
  have "(0, j, v) \<in> set (ChangeSet st) \<longleftrightarrow>
        j < RAYGUI_MAX_PROPS_BASE + RAYGUI_MAX_PROPS_EXTENDED \<and> v = GuiGetStyle st 0 j
        \<and> styleBackup st j \<noteq> GuiGetStyle st 0 j"
    by (simp add: ChangeSet_set)
  then show ?thesis
    using ChangeSet_sorted[of st] ChangeSet_bounds[of st]
    by (simp only: SaveStyle_binary_props_eq SaveStyle_text_props_eq
        ExportStyleAsCode_props_eq simp_thms)
qed

text \<open>The three outputs for \<open>st_mixed\<close>: four entries, DEFAULT first, in the same order.\<close>

theorem C2_emission_order_witness:
  "SaveStyle_binary_props st_mixed []
     = [0, 0, 1, 0, 0xFF, 0x20, 0x20, 0x20,   0, 0, 17, 0, 3, 0, 0, 0,
        1, 0, 2, 0, 0xFF, 0x33, 0x22, 0x11,   2, 0, 2, 0, 0xFF, 0x33, 0x22, 0x11]
   \<and> SaveStyle_text_props st_mixed []
     = ''p 00 01 0x202020ff    DEFAULT_BASE_COLOR_NORMAL \<newline>''
       @ ''p 00 17 0x00000003    DEFAULT_EXT01 \<newline>''
       @ ''p 01 02 0x112233ff    LABEL_TEXT_COLOR_NORMAL \<newline>''
       @ ''p 02 02 0x112233ff    BUTTON_TEXT_COLOR_NORMAL \<newline>''
   \<and> ExportStyleAsCode_props st_mixed []
     = ''    { 0, 1, 0x202020ff },    // DEFAULT_BASE_COLOR_NORMAL \<newline>''
       @ ''    { 0, 17, 0x00000003 },    // DEFAULT_TEXT_SPACING \<newline>''
       @ ''    { 1, 2, 0x112233ff },    // LABEL_TEXT_COLOR_NORMAL \<newline>''
       @ ''    { 2, 2, 0x112233ff },    // BUTTON_TEXT_COLOR_NORMAL \<newline>''
   \<and> sorted_wrt entry_before (ChangeSet st_mixed)"
proof -
  note t = C2_emission_order[of st_mixed "[]" "[]" "[]" 1 "0x202020FF"]
  have b: "SaveStyle_binary_props st_mixed []
     = [0, 0, 1, 0, 0xFF, 0x20, 0x20, 0x20,   0, 0, 17, 0, 3, 0, 0, 0,
        1, 0, 2, 0, 0xFF, 0x33, 0x22, 0x11,   2, 0, 2, 0, 0xFF, 0x33, 0x22, 0x11]"
    using t by (simp add: ChangeSet_mixed render_defs)
  have x: "SaveStyle_text_props st_mixed []
     = ''p 00 01 0x202020ff    DEFAULT_BASE_COLOR_NORMAL \<newline>''
       @ ''p 00 17 0x00000003    DEFAULT_EXT01 \<newline>''
       @ ''p 01 02 0x112233ff    LABEL_TEXT_COLOR_NORMAL \<newline>''
       @ ''p 02 02 0x112233ff    BUTTON_TEXT_COLOR_NORMAL \<newline>''"
    using t by (simp add: ChangeSet_mixed render_defs)
  have c: "ExportStyleAsCode_props st_mixed []
     = ''    { 0, 1, 0x202020ff },    // DEFAULT_BASE_COLOR_NORMAL \<newline>''
       @ ''    { 0, 17, 0x00000003 },    // DEFAULT_TEXT_SPACING \<newline>''
       @ ''    { 1, 2, 0x112233ff },    // LABEL_TEXT_COLOR_NORMAL \<newline>''
       @ ''    { 2, 2, 0x112233ff },    // BUTTON_TEXT_COLOR_NORMAL \<newline>''"
    using t by (simp add: ChangeSet_mixed render_defs)
  from t b x c show ?thesis by blast
qed

subsection \<open>What \<open>SaveStyle\<close> writes\<close>

lemma fold_append_all: "fold (\<lambda>x f. f @ e x) xs f = f @ concat (map e xs)"
  by (induction xs arbitrary: f) simp_all

lemma SaveStyle_binary_font_append:
  "SaveStyle_binary_font rl st f = f @ SaveStyle_binary_font rl st []"
  unfolding SaveStyle_binary_font_def Let_def
  by (simp add: fold_append_all split: prod.splits)

lemma StyleChangesCounter_frame [simp]:
  "StyleChangesCounter (st\<lparr>opened := x\<rparr>) = StyleChangesCounter st"
  "StyleChangesCounter (st\<lparr>files := y\<rparr>) = StyleChangesCounter st"
  by (simp_all add: StyleChangesCounter_def GuiGetStyle_def)

lemma ChangeSet_frame [simp]:
  "ChangeSet (st\<lparr>opened := x\<rparr>) = ChangeSet st"
  "ChangeSet (st\<lparr>files := y\<rparr>) = ChangeSet st"
  by (simp_all add: ChangeSet_def)

lemma SaveStyle_binary_font_frame [simp]:
  "SaveStyle_binary_font rl (st\<lparr>opened := x\<rparr>) f = SaveStyle_binary_font rl st f"
  "SaveStyle_binary_font rl (st\<lparr>files := y\<rparr>) f = SaveStyle_binary_font rl st f"
  by (simp_all add: SaveStyle_binary_font_def)

lemma SaveStyle_binary_eq:
  "SaveStyle_binary rl st =
     [0x72, 0x47, 0x53, 0x20] @ [200, 0] @ [0, 0]
     @ le32 (word_of_nat (length (ChangeSet st)))
     @ concat (map bin_record (ChangeSet st))
     @ (if customFontLoaded st then SaveStyle_binary_font rl st [] else [0, 0, 0, 0])"
  unfolding SaveStyle_binary_def Let_def
  by (subst SaveStyle_binary_font_append)
     (simp add: SaveStyle_binary_props_eq StyleChangesCounter_eq le16_def le32_def)

lemma SaveStyle_binary_frame [simp]:
  "SaveStyle_binary rl (st\<lparr>opened := x\<rparr>) = SaveStyle_binary rl st"
  "SaveStyle_binary rl (st\<lparr>files := y\<rparr>) = SaveStyle_binary rl st"
  by (simp_all add: SaveStyle_binary_eq)

lemma SaveStyle_text_eq:
  "SaveStyle_text rl st =
     ''#\<newline># rgs style text file (v3.5) - raygui style file generated using rGuiStyler\<newline>#\<newline>''
     @ ''# Info:  p <controlId> <propertyId> <propertyValue>  // Property description\<newline>#\<newline>''
     @ (if customFontLoaded st
        then ''# WARNING: This style uses a custom font, must be provided with style file\<newline>''
             @ ''f '' @ fmt_i (sint (GuiGetStyle st DEFAULT TEXT_SIZE)) @ '' ''
             @ fmt_i (sint (GuiGetStyle st DEFAULT TEXT_SPACING)) @ '' ''
             @ GetFileName rl (fontFilePath st) @ ''\<newline>''
        else [])
     @ concat (map text_line (ChangeSet st))"
  unfolding SaveStyle_text_def Let_def
  by (simp add: SaveStyle_text_props_eq)

lemma SaveStyle_text_frame [simp]:
  "SaveStyle_text rl (st\<lparr>opened := x\<rparr>) = SaveStyle_text rl st"
  "SaveStyle_text rl (st\<lparr>files := y\<rparr>) = SaveStyle_text rl st"
  by (simp_all add: SaveStyle_text_eq GuiGetStyle_def)

lemma SaveStyle_cases:
  "SaveStyle rl st fileName fmt =
    (if fmt = STYLE_BINARY
     then (if can_open st fileName
           then (True, st\<lparr>opened := opened st @ [fileName],
                          files := (files st)(fileName \<mapsto> Binary (SaveStyle_binary rl st))\<rparr>)
           else (False, st\<lparr>opened := opened st @ [fileName]\<rparr>))
     else if fmt = STYLE_TEXT
     then (if can_open st fileName
           then (True, st\<lparr>opened := opened st @ [fileName],
                          files := (files st)(fileName \<mapsto> Text (SaveStyle_text rl st))\<rparr>)
           else (False, st\<lparr>opened := opened st @ [fileName]\<rparr>))
     else (False, st))"
  by (simp add: SaveStyle_def fopen_def fclose_def STYLE_BINARY_def STYLE_TEXT_def)

lemma unat_count: "n \<le> 384 \<Longrightarrow> unat (word_of_int (int n) :: 32 word) = n"
  by (simp add: unsigned_of_nat take_bit_nat_eq_self)

lemma filter_eq_upt: "filter (\<lambda>j. j = k) [0..<n] = (if k < n then [k] else [])"
  by (induction n) auto

lemma filter_upt_single:
  assumes "k < n" and "\<And>j. j < n \<Longrightarrow> P j \<longleftrightarrow> j = k"
  shows "filter P [0..<n] = [k]"
proof -
  have "filter P [0..<n] = filter (\<lambda>j. j = k) [0..<n]"
    by (rule filter_cong) (simp_all add: assms(2))
  then show ?thesis by (simp add: filter_eq_upt assms(1))
qed

lemma ChangeSet_single:
  assumes v: "GuiGetStyle st 0 BASE_COLOR_NORMAL = 0x202020FF"
    and b: "styleBackup st BASE_COLOR_NORMAL = 0xFFFFFFFF"
    and same: "\<And>i j. i < RAYGUI_MAX_CONTROLS \<Longrightarrow> j < RAYGUI_MAX_PROPS_BASE + RAYGUI_MAX_PROPS_EXTENDED
       \<Longrightarrow> (i, j) \<noteq> (0, BASE_COLOR_NORMAL)
       \<Longrightarrow> GuiGetStyle st i j = styleBackup st (i * (RAYGUI_MAX_PROPS_BASE + RAYGUI_MAX_PROPS_EXTENDED) + j)"
  shows "ChangeSet st = [(0, BASE_COLOR_NORMAL, 0x202020FF)]"
proof -
  let ?n = "RAYGUI_MAX_PROPS_BASE + RAYGUI_MAX_PROPS_EXTENDED"
  have k: "BASE_COLOR_NORMAL < ?n"
    by (simp add: BASE_COLOR_NORMAL_def RAYGUI_MAX_PROPS_BASE_def)
  have c0: "0 < RAYGUI_MAX_CONTROLS"
    by (simp add: RAYGUI_MAX_CONTROLS_def)
  have d: "filter (\<lambda>j. styleBackup st j \<noteq> GuiGetStyle st 0 j) [0..<?n] = [BASE_COLOR_NORMAL]"
  proof (rule filter_upt_single[OF k])
    fix j assume "j < ?n"
    then have "j \<noteq> BASE_COLOR_NORMAL \<Longrightarrow> styleBackup st j = GuiGetStyle st 0 j"
      using same[OF c0, of j] by simp
    moreover have "styleBackup st BASE_COLOR_NORMAL \<noteq> GuiGetStyle st 0 BASE_COLOR_NORMAL"
      by (simp add: v b)
    ultimately show "(styleBackup st j \<noteq> GuiGetStyle st 0 j) \<longleftrightarrow> j = BASE_COLOR_NORMAL"
      by blast
  qed
  have c: "concat (map (\<lambda>i. map (\<lambda>j. (i, j, GuiGetStyle st i j))
         (filter (\<lambda>j. styleBackup st (i * ?n + j) \<noteq> GuiGetStyle st i j
                     \<and> GuiGetStyle st i j \<noteq> GuiGetStyle st 0 j) [0..<?n]))
         [1..<RAYGUI_MAX_CONTROLS]) = []"
    using same by (auto simp: filter_empty_conv)
  show ?thesis
    unfolding ChangeSet_alt d c by (simp add: v)
qed

lemma can_open_fresh [simp]:
  "can_open st_fresh n \<longleftrightarrow> n = ''style.rgs''"
  "can_open st_mixed n \<longleftrightarrow> n = ''style.rgs''"
  "can_open st_dark n \<longleftrightarrow> n = ''style.rgs''"
  "can_open st_siblings n \<longleftrightarrow> n = ''style.rgs''"
  by (simp_all add: st_fresh_def st_mixed_def st_dark_def st_siblings_def)

lemma customFontLoaded_fresh [simp]:
  "\<not> customFontLoaded st_fresh" "\<not> customFontLoaded st_mixed"
  "\<not> customFontLoaded st_dark" "\<not> customFontLoaded st_siblings"
  by (simp_all add: st_fresh_def st_mixed_def st_dark_def st_siblings_def)

subsection \<open>The binary file\<close>

text \<open>
  C3. When the file can be opened, \<open>SaveStyle(fileName, STYLE_BINARY)\<close> succeeds and the
  file begins with the four bytes of \<open>"rGS "\<close>, the two bytes of the version 200, two zero
  bytes and the four bytes of the count \<open>N = StyleChangesCounter()\<close>; then come the bytes
  of the two loops, which are one 8-byte record (control: 2 bytes, property: 2 bytes,
  value: 4 bytes) for each entry of the Change-Set, and \<open>N\<close> is the number of these
  records: the counter and the loops agree. The count fits its four bytes.
\<close>

theorem C3_binary_header_and_count:
  assumes "can_open st fileName"
  shows "fst (SaveStyle rl st fileName STYLE_BINARY)
     \<and> files (snd (SaveStyle rl st fileName STYLE_BINARY)) fileName
         = Some (Binary (map of_char ''rGS '' @ [200, 0] @ [0, 0]
             @ le32 (word_of_int (StyleChangesCounter st))
             @ SaveStyle_binary_props st []
             @ (if customFontLoaded st then SaveStyle_binary_font rl st [] else [0, 0, 0, 0])))
     \<and> SaveStyle_binary_props st [] = concat (map bin_record (ChangeSet st))
     \<and> list_all (\<lambda>e. length (bin_record e) = 8) (ChangeSet st)
     \<and> StyleChangesCounter st = int (length (ChangeSet st))
     \<and> length (SaveStyle_binary_props st []) = 8 * nat (StyleChangesCounter st)
     \<and> unat (word_of_int (StyleChangesCounter st) :: 32 word) = length (ChangeSet st)
     \<and> int (length (read_records (SaveStyle_binary_props st []))) = StyleChangesCounter st"
proof -
  have 1: "fst (SaveStyle rl st fileName STYLE_BINARY)"
    using assms by (simp add: SaveStyle_cases)
  have 2: "files (snd (SaveStyle rl st fileName STYLE_BINARY)) fileName
         = Some (Binary (map of_char ''rGS '' @ [200, 0] @ [0, 0]
             @ le32 (word_of_int (StyleChangesCounter st))
             @ SaveStyle_binary_props st []
             @ (if customFontLoaded st then SaveStyle_binary_font rl st [] else [0, 0, 0, 0])))"
    using assms
    by (simp add: SaveStyle_cases SaveStyle_binary_eq SaveStyle_binary_props_eq
        StyleChangesCounter_eq)
  have 3: "list_all (\<lambda>e. length (bin_record e) = 8) (ChangeSet st)"
    by (simp add: list_all_iff length_bin_record)
  have 4: "length (SaveStyle_binary_props st []) = 8 * nat (StyleChangesCounter st)"
    by (simp add: SaveStyle_binary_props_eq StyleChangesCounter_eq length_concat_bin)
  have 5: "unat (word_of_int (StyleChangesCounter st) :: 32 word) = length (ChangeSet st)"
    unfolding StyleChangesCounter_eq by (rule unat_count) (rule length_ChangeSet_le)
  have 6: "int (length (read_records (SaveStyle_binary_props st []))) = StyleChangesCounter st"
    by (simp only: read_records_props StyleChangesCounter_eq)
  from 1 2 3 4 5 6 show ?thesis
    by (simp only: SaveStyle_binary_props_eq StyleChangesCounter_eq simp_thms append_Nil)
qed

text \<open>The file written for \<open>st_mixed\<close>: count 4 and four records.\<close>

theorem C3_binary_header_and_count_witness:
  "can_open st_mixed ''style.rgs''
   \<and> fst (SaveStyle rl0 st_mixed ''style.rgs'' STYLE_BINARY)
   \<and> files (snd (SaveStyle rl0 st_mixed ''style.rgs'' STYLE_BINARY)) ''style.rgs''
       = Some (Binary
          [0x72, 0x47, 0x53, 0x20,   200, 0,   0, 0,   4, 0, 0, 0,
           0, 0, 1, 0, 0xFF, 0x20, 0x20, 0x20,   0, 0, 17, 0, 3, 0, 0, 0,
           1, 0, 2, 0, 0xFF, 0x33, 0x22, 0x11,   2, 0, 2, 0, 0xFF, 0x33, 0x22, 0x11,
           0, 0, 0, 0])
   \<and> StyleChangesCounter st_mixed = 4"
proof -
  have h: "can_open st_mixed ''style.rgs''" by simp
  note t = C3_binary_header_and_count[OF h, of rl0]
  have n: "StyleChangesCounter st_mixed = 4"
    using t by (simp add: ChangeSet_mixed)
  have f: "files (snd (SaveStyle rl0 st_mixed ''style.rgs'' STYLE_BINARY)) ''style.rgs''
       = Some (Binary
          [0x72, 0x47, 0x53, 0x20,   200, 0,   0, 0,   4, 0, 0, 0,
           0, 0, 1, 0, 0xFF, 0x20, 0x20, 0x20,   0, 0, 17, 0, 3, 0, 0, 0,
           1, 0, 2, 0, 0xFF, 0x33, 0x22, 0x11,   2, 0, 2, 0, 0xFF, 0x33, 0x22, 0x11,
           0, 0, 0, 0])"
    using t by (simp add: ChangeSet_mixed render_defs)
  from h t n f show ?thesis by blast
qed

text \<open>
  C4. With no custom font loaded, the binary file is the 12 bytes of the header and the
  count, the \<open>N\<close> records of 8 bytes, and then four zero bytes, the font data size 0:
  nothing follows them.
\<close>

theorem C4_no_font_ends_with_zero_size:
  assumes "can_open st fileName" and "\<not> customFontLoaded st"
  shows "fst (SaveStyle rl st fileName STYLE_BINARY)
     \<and> files (snd (SaveStyle rl st fileName STYLE_BINARY)) fileName
         = Some (Binary (SaveStyle_binary rl st))
     \<and> SaveStyle_binary rl st
         = [0x72, 0x47, 0x53, 0x20, 200, 0, 0, 0] @ le32 (word_of_int (StyleChangesCounter st))
           @ SaveStyle_binary_props st [] @ [0, 0, 0, 0]
     \<and> length (SaveStyle_binary_props st []) = 8 * nat (StyleChangesCounter st)
     \<and> drop (12 + 8 * nat (StyleChangesCounter st)) (SaveStyle_binary rl st) = [0, 0, 0, 0]
     \<and> length (SaveStyle_binary rl st) = 12 + 8 * nat (StyleChangesCounter st) + 4"
proof -
  have a1: "fst (SaveStyle rl st fileName STYLE_BINARY)
     \<and> files (snd (SaveStyle rl st fileName STYLE_BINARY)) fileName
         = Some (Binary (SaveStyle_binary rl st))"
    using assms by (simp add: SaveStyle_cases)
  have a2: "SaveStyle_binary rl st
         = [0x72, 0x47, 0x53, 0x20, 200, 0, 0, 0] @ le32 (word_of_int (StyleChangesCounter st))
           @ SaveStyle_binary_props st [] @ [0, 0, 0, 0]"
    using assms(2)
    by (simp add: SaveStyle_binary_eq SaveStyle_binary_props_eq StyleChangesCounter_eq)
  have a3: "length (SaveStyle_binary_props st []) = 8 * nat (StyleChangesCounter st)"
    by (simp add: SaveStyle_binary_props_eq StyleChangesCounter_eq length_concat_bin)
  have a4: "length (le32 w) = 4" for w
    by (simp add: le32_def)
  let ?pre = "[0x72, 0x47, 0x53, 0x20, 200, 0, 0, 0] @ le32 (word_of_int (StyleChangesCounter st))
           @ SaveStyle_binary_props st []"
  have p: "length ?pre = 12 + 8 * nat (StyleChangesCounter st)"
    by (simp add: a3 a4)
  have s: "SaveStyle_binary rl st = ?pre @ [0, 0, 0, 0]"
    by (simp add: a2)
  have a5: "drop (12 + 8 * nat (StyleChangesCounter st)) (SaveStyle_binary rl st) = [0, 0, 0, 0]"
  proof -
    have g: "drop (length xs) (xs @ ys) = ys" for xs ys :: "byte list"
      by simp
    show ?thesis
      unfolding s p[symmetric] by (rule g)
  qed
  have a6: "length (SaveStyle_binary rl st) = 12 + 8 * nat (StyleChangesCounter st) + 4"
    by (simp add: s a3 a4)
  from a1 a2 a3 a5 a6 show ?thesis by blast
qed

theorem C4_no_font_ends_with_zero_size_witness:
  "can_open st_siblings ''style.rgs'' \<and> \<not> customFontLoaded st_siblings
   \<and> files (snd (SaveStyle rl0 st_siblings ''style.rgs'' STYLE_BINARY)) ''style.rgs''
       = Some (Binary (SaveStyle_binary rl0 st_siblings))
   \<and> drop (12 + 8 * 2) (SaveStyle_binary rl0 st_siblings) = [0, 0, 0, 0]
   \<and> length (SaveStyle_binary rl0 st_siblings) = 32"
proof -
  have h: "can_open st_siblings ''style.rgs''" "\<not> customFontLoaded st_siblings"
    by simp_all
  have n: "nat (StyleChangesCounter st_siblings) = 2"
    by (simp add: StyleChangesCounter_eq ChangeSet_siblings)
  note t = C4_no_font_ends_with_zero_size[OF h, of rl0, unfolded n]
  have d: "drop (12 + 8 * 2) (SaveStyle_binary rl0 st_siblings) = [0, 0, 0, 0]"
    using t by blast
  from t have "length (SaveStyle_binary rl0 st_siblings) = 12 + 8 * 2 + 4"
    by blast
  then have l: "length (SaveStyle_binary rl0 st_siblings) = 32"
    by simp
  from h t d l show ?thesis by blast
qed

text \<open>
  C5. If the store differs from the baseline only in DEFAULT's BASE_COLOR_NORMAL, changed
  from \<open>0xFFFFFFFF\<close> to \<open>0x202020FF\<close>, and no custom font is loaded, then the Change-Set is
  the single entry \<open>(0, BASE_COLOR_NORMAL, 0x202020FF)\<close>, the counter is 1, and the binary
  file is the header \<open>"rGS "\<close>, version 200, reserved 0, count 1, one record of 8 bytes
  (control 0, property 1, value \<open>0x202020FF\<close>) and the four zero bytes of the font size.
\<close>

theorem C5_single_default_change:
  assumes "can_open st fileName" and "\<not> customFontLoaded st"
    and "GuiGetStyle st 0 BASE_COLOR_NORMAL = 0x202020FF"
    and "styleBackup st BASE_COLOR_NORMAL = 0xFFFFFFFF"
    and "\<And>i j. i < RAYGUI_MAX_CONTROLS
           \<Longrightarrow> j < RAYGUI_MAX_PROPS_BASE + RAYGUI_MAX_PROPS_EXTENDED
           \<Longrightarrow> (i, j) \<noteq> (0, BASE_COLOR_NORMAL)
           \<Longrightarrow> GuiGetStyle st i j
               = styleBackup st (i * (RAYGUI_MAX_PROPS_BASE + RAYGUI_MAX_PROPS_EXTENDED) + j)"
  shows "ChangeSet st = [(0, BASE_COLOR_NORMAL, 0x202020FF)]
     \<and> StyleChangesCounter st = 1
     \<and> SaveStyle_binary_props st [] = [0, 0, 1, 0, 0xFF, 0x20, 0x20, 0x20]
     \<and> fst (SaveStyle rl st fileName STYLE_BINARY)
     \<and> files (snd (SaveStyle rl st fileName STYLE_BINARY)) fileName
         = Some (Binary
            [0x72, 0x47, 0x53, 0x20,   200, 0,   0, 0,   1, 0, 0, 0,
             0, 0, 1, 0, 0xFF, 0x20, 0x20, 0x20,
             0, 0, 0, 0])"
proof -
  have c: "ChangeSet st = [(0, BASE_COLOR_NORMAL, 0x202020FF)]"
    using assms(3-5) by (rule ChangeSet_single)
  have r: "bin_record (0, BASE_COLOR_NORMAL, 0x202020FF) = [0, 0, 1, 0, 0xFF, 0x20, 0x20, 0x20]"
    by (simp add: bin_record_def le16_def le32_def BASE_COLOR_NORMAL_def)
  have n: "StyleChangesCounter st = 1"
    by (simp add: StyleChangesCounter_eq c)
  have p: "SaveStyle_binary_props st [] = [0, 0, 1, 0, 0xFF, 0x20, 0x20, 0x20]"
    by (simp add: SaveStyle_binary_props_eq c r)
  have f: "fst (SaveStyle rl st fileName STYLE_BINARY)
     \<and> files (snd (SaveStyle rl st fileName STYLE_BINARY)) fileName
         = Some (Binary
            [0x72, 0x47, 0x53, 0x20,   200, 0,   0, 0,   1, 0, 0, 0,
             0, 0, 1, 0, 0xFF, 0x20, 0x20, 0x20,
             0, 0, 0, 0])"
    using assms(1,2) by (simp add: SaveStyle_cases SaveStyle_binary_eq c r le32_def)
  from c n p f show ?thesis by blast
qed

text \<open>\<open>st_dark\<close> is such a state.\<close>

theorem C5_single_default_change_witness:
  "can_open st_dark ''style.rgs'' \<and> \<not> customFontLoaded st_dark
   \<and> GuiGetStyle st_dark 0 BASE_COLOR_NORMAL = 0x202020FF
   \<and> styleBackup st_dark BASE_COLOR_NORMAL = 0xFFFFFFFF
   \<and> GuiGetStyle st_dark 2 1 = styleBackup st_dark (2 * 24 + 1)
   \<and> ChangeSet st_dark = [(0, BASE_COLOR_NORMAL, 0x202020FF)]
   \<and> files (snd (SaveStyle rl0 st_dark ''style.rgs'' STYLE_BINARY)) ''style.rgs''
         = Some (Binary
            [0x72, 0x47, 0x53, 0x20,   200, 0,   0, 0,   1, 0, 0, 0,
             0, 0, 1, 0, 0xFF, 0x20, 0x20, 0x20,
             0, 0, 0, 0])"
proof -
  have h: "can_open st_dark ''style.rgs''" "\<not> customFontLoaded st_dark"
    by simp_all
  have v: "GuiGetStyle st_dark 0 BASE_COLOR_NORMAL = 0x202020FF"
    "styleBackup st_dark BASE_COLOR_NORMAL = 0xFFFFFFFF"
    "GuiGetStyle st_dark 2 1 = styleBackup st_dark (2 * 24 + 1)"
    by (simp_all add: st_dark_def st_fresh_def GuiGetStyle_def BASE_COLOR_NORMAL_def)
  have s: "GuiGetStyle st_dark i j
      = styleBackup st_dark (i * (RAYGUI_MAX_PROPS_BASE + RAYGUI_MAX_PROPS_EXTENDED) + j)"
    if "i < RAYGUI_MAX_CONTROLS" "j < RAYGUI_MAX_PROPS_BASE + RAYGUI_MAX_PROPS_EXTENDED"
      "(i, j) \<noteq> (0, BASE_COLOR_NORMAL)" for i j
    using that
    by (auto simp: st_dark_def st_fresh_def GuiGetStyle_def BASE_COLOR_NORMAL_def
        RAYGUI_MAX_PROPS_BASE_def RAYGUI_MAX_PROPS_EXTENDED_def)
  note t = C5_single_default_change[OF h v(1,2) s, of rl0]
  from h v t show ?thesis by blast
qed

subsection \<open>Failure and the formats \<open>SaveStyle\<close> does not write\<close>

text \<open>
  C6. If the file cannot be opened, \<open>SaveStyle\<close> returns false, writes no file and leaves
  the state as it was but for the record of the \<open>fopen\<close> call; on every path, whatever the
  format and the file, \<open>styleBackup\<close> and the style store are untouched. After a failed
  call, a call with a name that can be opened returns and writes what it would have
  written in the first place.
\<close>

theorem C6_failed_open_changes_nothing:
  "(\<not> can_open st fileName \<longrightarrow>
       \<not> fst (SaveStyle rl st fileName fmt)
     \<and> (snd (SaveStyle rl st fileName fmt))\<lparr>opened := opened st\<rparr> = st
     \<and> fst (SaveStyle rl (snd (SaveStyle rl st fileName fmt)) other fmt)
         = fst (SaveStyle rl st other fmt)
     \<and> files (snd (SaveStyle rl (snd (SaveStyle rl st fileName fmt)) other fmt))
         = files (snd (SaveStyle rl st other fmt)))
   \<and> styleBackup (snd (SaveStyle rl st fileName fmt)) = styleBackup st
   \<and> guiStyle (snd (SaveStyle rl st fileName fmt)) = guiStyle st"
  by (simp add: SaveStyle_cases)

theorem C6_failed_open_changes_nothing_witness:
  "\<not> can_open st_mixed ''/no/such/dir/style.rgs''
   \<and> \<not> fst (SaveStyle rl0 st_mixed ''/no/such/dir/style.rgs'' STYLE_BINARY)
   \<and> files (snd (SaveStyle rl0 st_mixed ''/no/such/dir/style.rgs'' STYLE_BINARY))
        = files st_mixed
   \<and> styleBackup (snd (SaveStyle rl0 st_mixed ''/no/such/dir/style.rgs'' STYLE_BINARY))
        = styleBackup st_mixed
   \<and> guiStyle (snd (SaveStyle rl0 st_mixed ''/no/such/dir/style.rgs'' STYLE_BINARY))
        = guiStyle st_mixed
   \<and> fst (SaveStyle rl0 (snd (SaveStyle rl0 st_mixed ''/no/such/dir/style.rgs'' STYLE_BINARY))
        ''style.rgs'' STYLE_BINARY)"
proof -
  have h: "\<not> can_open st_mixed ''/no/such/dir/style.rgs''"
    by simp
  note t = C6_failed_open_changes_nothing[of st_mixed "''/no/such/dir/style.rgs''" rl0
      STYLE_BINARY "''style.rgs''"]
  have u: "(snd (SaveStyle rl0 st_mixed ''/no/such/dir/style.rgs'' STYLE_BINARY))
      \<lparr>opened := opened st_mixed\<rparr> = st_mixed"
    using t h by blast
  have f: "files (snd (SaveStyle rl0 st_mixed ''/no/such/dir/style.rgs'' STYLE_BINARY))
        = files st_mixed"
    using arg_cong[OF u, of files] by simp
  have g: "fst (SaveStyle rl0 st_mixed ''style.rgs'' STYLE_BINARY)"
    by (simp add: SaveStyle_cases)
  from h t f g show ?thesis by blast
qed

text \<open>
  C10. With a format other than \<open>STYLE_BINARY\<close> (0) and \<open>STYLE_TEXT\<close> (3), in particular
  with \<open>STYLE_AS_CODE\<close> (1) and \<open>STYLE_TABLE_IMAGE\<close> (2), \<open>SaveStyle\<close> returns false and
  the state is the one before the call: no \<open>fopen\<close> call is made and no file is written.
\<close>

theorem C10_other_formats_do_nothing:
  assumes "fmt \<noteq> STYLE_BINARY" and "fmt \<noteq> STYLE_TEXT"
  shows "SaveStyle rl st fileName fmt = (False, st)
     \<and> opened (snd (SaveStyle rl st fileName fmt)) = opened st
     \<and> files (snd (SaveStyle rl st fileName fmt)) = files st"
  using assms by (simp add: SaveStyle_cases)

theorem C10_other_formats_do_nothing_witness:
  "STYLE_AS_CODE \<noteq> STYLE_BINARY \<and> STYLE_AS_CODE \<noteq> STYLE_TEXT
   \<and> STYLE_TABLE_IMAGE \<noteq> STYLE_BINARY \<and> STYLE_TABLE_IMAGE \<noteq> STYLE_TEXT
   \<and> SaveStyle rl0 st_mixed ''style.rgs'' STYLE_AS_CODE = (False, st_mixed)
   \<and> SaveStyle rl0 st_mixed ''style.rgs'' STYLE_TABLE_IMAGE = (False, st_mixed)
   \<and> can_open st_mixed ''style.rgs''"
proof -
  have h: "STYLE_AS_CODE \<noteq> STYLE_BINARY" "STYLE_AS_CODE \<noteq> STYLE_TEXT"
    "STYLE_TABLE_IMAGE \<noteq> STYLE_BINARY" "STYLE_TABLE_IMAGE \<noteq> STYLE_TEXT"
    by (simp_all add: STYLE_AS_CODE_def STYLE_TABLE_IMAGE_def STYLE_BINARY_def STYLE_TEXT_def)
  have c: "can_open st_mixed ''style.rgs''"
    by simp
  from h c C10_other_formats_do_nothing[OF h(1,2), of rl0 st_mixed "''style.rgs''"]
    C10_other_formats_do_nothing[OF h(3,4), of rl0 st_mixed "''style.rgs''"]
  show ?thesis by blast
qed

subsection \<open>The Change-Set is a function of the store and the baseline\<close>

lemma flat_index_bound:
  "i < RAYGUI_MAX_CONTROLS \<Longrightarrow> j < RAYGUI_MAX_PROPS_BASE + RAYGUI_MAX_PROPS_EXTENDED
   \<Longrightarrow> i * (RAYGUI_MAX_PROPS_BASE + RAYGUI_MAX_PROPS_EXTENDED) + j
        < RAYGUI_MAX_CONTROLS * (RAYGUI_MAX_PROPS_BASE + RAYGUI_MAX_PROPS_EXTENDED)"
proof -
  assume a: "i < RAYGUI_MAX_CONTROLS" and b: "j < RAYGUI_MAX_PROPS_BASE + RAYGUI_MAX_PROPS_EXTENDED"
  let ?n = "RAYGUI_MAX_PROPS_BASE + RAYGUI_MAX_PROPS_EXTENDED"
  have "i * ?n + j < i * ?n + ?n" using b by simp
  also have "\<dots> = Suc i * ?n" by simp
  also have "\<dots> \<le> RAYGUI_MAX_CONTROLS * ?n"
    using a by (intro mult_le_mono1) simp
  finally show ?thesis .
qed

lemma ChangeSet_cong:
  assumes s: "\<And>i j. i < RAYGUI_MAX_CONTROLS \<Longrightarrow> j < RAYGUI_MAX_PROPS_BASE + RAYGUI_MAX_PROPS_EXTENDED
            \<Longrightarrow> GuiGetStyle st' i j = GuiGetStyle st i j"
    and b: "\<And>k. k < RAYGUI_MAX_CONTROLS * (RAYGUI_MAX_PROPS_BASE + RAYGUI_MAX_PROPS_EXTENDED)
            \<Longrightarrow> styleBackup st' k = styleBackup st k"
  shows "ChangeSet st' = ChangeSet st"
proof -
  let ?n = "RAYGUI_MAX_PROPS_BASE + RAYGUI_MAX_PROPS_EXTENDED"
  have c0: "0 < RAYGUI_MAX_CONTROLS" by (simp add: RAYGUI_MAX_CONTROLS_def)
  have mf: "map f (filter P xs) = map g (filter Q xs)"
    if "\<And>x. x \<in> set xs \<Longrightarrow> P x = Q x \<and> f x = g x" for f g :: "nat \<Rightarrow> nat \<times> nat \<times> 32 word" and P Q xs
    using that by (induction xs) auto
  have d: "map (\<lambda>j. (0::nat, j, GuiGetStyle st' 0 j))
       (filter (\<lambda>j. styleBackup st' j \<noteq> GuiGetStyle st' 0 j) [0..<?n])
     = map (\<lambda>j. (0::nat, j, GuiGetStyle st 0 j))
       (filter (\<lambda>j. styleBackup st j \<noteq> GuiGetStyle st 0 j) [0..<?n])"
  proof (rule mf)
    fix x assume "x \<in> set [0..<?n]"
    then have x: "x < ?n" by simp
    from flat_index_bound[OF c0 x] have "styleBackup st' x = styleBackup st x"
      using b[of x] by simp
    then show "(styleBackup st' x \<noteq> GuiGetStyle st' 0 x) = (styleBackup st x \<noteq> GuiGetStyle st 0 x)
        \<and> (0::nat, x, GuiGetStyle st' 0 x) = (0, x, GuiGetStyle st 0 x)"
      using s[OF c0 x] by simp
  qed
  have c: "map (\<lambda>j. (i, j, GuiGetStyle st' i j))
         (filter (\<lambda>j. styleBackup st' (i * ?n + j) \<noteq> GuiGetStyle st' i j
                     \<and> GuiGetStyle st' i j \<noteq> GuiGetStyle st' 0 j) [0..<?n])
     = map (\<lambda>j. (i, j, GuiGetStyle st i j))
         (filter (\<lambda>j. styleBackup st (i * ?n + j) \<noteq> GuiGetStyle st i j
                     \<and> GuiGetStyle st i j \<noteq> GuiGetStyle st 0 j) [0..<?n])"
    if i: "i \<in> set [1..<RAYGUI_MAX_CONTROLS]" for i
  proof (rule mf)
    fix x assume "x \<in> set [0..<?n]"
    then have x: "x < ?n" by simp
    from i have i': "i < RAYGUI_MAX_CONTROLS" by simp
    show "(styleBackup st' (i * ?n + x) \<noteq> GuiGetStyle st' i x \<and> GuiGetStyle st' i x \<noteq> GuiGetStyle st' 0 x)
        = (styleBackup st (i * ?n + x) \<noteq> GuiGetStyle st i x \<and> GuiGetStyle st i x \<noteq> GuiGetStyle st 0 x)
        \<and> (i, x, GuiGetStyle st' i x) = (i, x, GuiGetStyle st i x)"
      using s[OF c0 x] s[OF i' x] b[OF flat_index_bound[OF i' x]] by simp
  qed
  have cc: "concat (map F xs) = concat (map G xs)"
    if "\<And>x. x \<in> set xs \<Longrightarrow> F x = G x" for F G :: "nat \<Rightarrow> (nat \<times> nat \<times> 32 word) list" and xs
    using that by (induction xs) auto
  show ?thesis
    unfolding ChangeSet_alt d
    by (rule arg_cong[where f = "\<lambda>t. _ @ t"], rule cc, rule c)
qed

text \<open>
  C9. The count of \<open>StyleChangesCounter\<close> and the sequence of entries that the writers
  emit are functions of the contents of the store and of \<open>styleBackup\<close> alone: two
  states that agree on both (over the indices of the tables) give the same count and the
  same output, whatever else differs. Neither is changed by a call of \<open>SaveStyle\<close>, so
  computing the Change-Set again after a call gives the same count and the same entries,
  and saving twice under one name leaves the file of the first call.
\<close>

theorem C9_change_set_is_a_function_of_store_and_baseline:
  assumes "\<And>i j. i < RAYGUI_MAX_CONTROLS
             \<Longrightarrow> j < RAYGUI_MAX_PROPS_BASE + RAYGUI_MAX_PROPS_EXTENDED
             \<Longrightarrow> GuiGetStyle st' i j = GuiGetStyle st i j"
    and "\<And>k. k < RAYGUI_MAX_CONTROLS * (RAYGUI_MAX_PROPS_BASE + RAYGUI_MAX_PROPS_EXTENDED)
             \<Longrightarrow> styleBackup st' k = styleBackup st k"
  shows "StyleChangesCounter st' = StyleChangesCounter st
     \<and> SaveStyle_binary_props st' fb = SaveStyle_binary_props st fb
     \<and> SaveStyle_text_props st' ft = SaveStyle_text_props st ft
     \<and> ExportStyleAsCode_props st' fc = ExportStyleAsCode_props st fc
     \<and> ChangeSet st' = ChangeSet st
     \<and> StyleChangesCounter (snd (SaveStyle rl st fileName fmt)) = StyleChangesCounter st
     \<and> ChangeSet (snd (SaveStyle rl st fileName fmt)) = ChangeSet st
     \<and> files (snd (SaveStyle rl (snd (SaveStyle rl st fileName fmt)) fileName fmt))
         = files (snd (SaveStyle rl st fileName fmt))"
proof -
  have c: "ChangeSet st' = ChangeSet st"
    using assms by (rule ChangeSet_cong)
  have s: "StyleChangesCounter (snd (SaveStyle rl st fileName fmt)) = StyleChangesCounter st
     \<and> ChangeSet (snd (SaveStyle rl st fileName fmt)) = ChangeSet st
     \<and> files (snd (SaveStyle rl (snd (SaveStyle rl st fileName fmt)) fileName fmt))
         = files (snd (SaveStyle rl st fileName fmt))"
    by (simp add: SaveStyle_cases)
  from c s show ?thesis
    by (simp add: SaveStyle_binary_props_eq SaveStyle_text_props_eq
        ExportStyleAsCode_props_eq StyleChangesCounter_eq)
qed

text \<open>
  \<open>st_mixed\<close> with a custom font loaded has the store and the baseline of \<open>st_mixed\<close>: the
  count is 4 in both and the property lines are the same.
\<close>

theorem C9_change_set_is_a_function_of_store_and_baseline_witness:
  "guiStyle (st_mixed\<lparr>customFontLoaded := True\<rparr>) = guiStyle st_mixed
   \<and> styleBackup (st_mixed\<lparr>customFontLoaded := True\<rparr>) = styleBackup st_mixed
   \<and> st_mixed\<lparr>customFontLoaded := True\<rparr> \<noteq> st_mixed
   \<and> StyleChangesCounter st_mixed = 4
   \<and> StyleChangesCounter (st_mixed\<lparr>customFontLoaded := True\<rparr>) = 4
   \<and> SaveStyle_text_props (st_mixed\<lparr>customFontLoaded := True\<rparr>) []
       = SaveStyle_text_props st_mixed []
   \<and> StyleChangesCounter (snd (SaveStyle rl0 st_mixed ''style.rgs'' STYLE_BINARY)) = 4"
proof -
  let ?st = "st_mixed\<lparr>customFontLoaded := True\<rparr>"
  have a: "guiStyle ?st = guiStyle st_mixed" "styleBackup ?st = styleBackup st_mixed"
    by simp_all
  have d: "?st \<noteq> st_mixed"
  proof
    assume "?st = st_mixed"
    then have "customFontLoaded ?st = customFontLoaded st_mixed" by (rule arg_cong)
    then show False by simp
  qed
  have g: "GuiGetStyle ?st i j = GuiGetStyle st_mixed i j" for i j
    by (simp add: GuiGetStyle_def)
  have b: "styleBackup ?st k = styleBackup st_mixed k" for k
    by simp
  note t = C9_change_set_is_a_function_of_store_and_baseline[of ?st st_mixed "[]" "[]" "[]" rl0
      "''style.rgs''" STYLE_BINARY, OF g b]
  have n: "StyleChangesCounter st_mixed = 4"
    by (simp add: StyleChangesCounter_eq ChangeSet_mixed)
  from a d t n show ?thesis by simp
qed

subsection \<open>The text file\<close>

lemma hexdigit_mem: "hexdigit d \<in> set ''0123456789abcdef''"
  unfolding hexdigit_def by (rule nth_mem) simp

lemma hexdigit_not_newline: "hexdigit d \<noteq> CHR 0x0A" "CHR 0x0A \<noteq> hexdigit d"
  using hexdigit_mem[of d] by auto

lemma dec_chars: "c \<in> set (dec n) \<Longrightarrow> c \<in> set ''0123456789abcdef''"
proof (induction n rule: dec.induct)
  case (1 n)
  show ?case
  proof (cases "n < 10")
    case True
    with "1.prems" have "c = hexdigit n" by (simp add: dec.simps)
    then show ?thesis using hexdigit_mem by blast
  next
    case False
    with "1.prems" have "c \<in> set (dec (n div 10)) \<or> c = hexdigit (n mod 10)"
      by (subst (asm) dec.simps) auto
    then show ?thesis
      using "1.IH"[OF False] hexdigit_mem by blast
  qed
qed

lemma length_dec_small: "n < 10 \<Longrightarrow> length (dec n) = 1"
  by (simp add: dec.simps)

lemma length_dec_100:
  assumes "n < 100"
  shows "length (dec n) \<le> 2"
proof (cases "n < 10")
  case True
  then show ?thesis by (simp add: length_dec_small)
next
  case False
  from assms have "n div 10 < 10" by simp
  then have "length (dec (n div 10)) = 1" by (rule length_dec_small)
  with False show ?thesis by (subst dec.simps) simp
qed

lemma length_fmt_02i: "n < 100 \<Longrightarrow> length (fmt_02i n) = 2"
  using length_dec_100[of n] by (simp add: fmt_02i_def)

lemma length_fmt_08x: "length (fmt_08x v) = 8"
  by (simp add: fmt_08x_def)

lemma fmt_02i_no_newline: "CHR 0x0A \<notin> set (fmt_02i n)"
  using dec_chars[of "CHR 0x0A" n] by (auto simp: fmt_02i_def)

lemma fmt_08x_no_newline: "CHR 0x0A \<notin> set (fmt_08x v)"
  by (simp add: fmt_08x_def hexdigit_not_newline)

lemma guiControlText_no_newline:
  "i < RAYGUI_MAX_CONTROLS \<Longrightarrow> CHR 0x0A \<notin> set (guiControlText ! i)"
proof -
  have "list_all (\<lambda>s. CHR 0x0A \<notin> set s) guiControlText"
    by (simp add: guiControlText_def)
  moreover assume "i < RAYGUI_MAX_CONTROLS"
  ultimately show ?thesis
    by (simp add: list_all_length guiControlText_def RAYGUI_MAX_CONTROLS_def)
qed

lemma guiPropsText_no_newline:
  "j < RAYGUI_MAX_PROPS_BASE \<Longrightarrow> CHR 0x0A \<notin> set (guiPropsText ! j)"
proof -
  have "list_all (\<lambda>s. CHR 0x0A \<notin> set s) guiPropsText"
    by (simp add: guiPropsText_def)
  moreover assume "j < RAYGUI_MAX_PROPS_BASE"
  ultimately show ?thesis
    by (simp add: list_all_length guiPropsText_def RAYGUI_MAX_PROPS_BASE_def)
qed

lemma count_list_0: "c \<notin> set xs \<Longrightarrow> count_list xs c = 0"
  by (induction xs) auto

lemma text_line_one_line:
  assumes "i < RAYGUI_MAX_CONTROLS"
  shows "count_list (text_line (i, j, v)) (CHR 0x0A) = 1 \<and> last (text_line (i, j, v)) = CHR 0x0A"
  using assms
  by (simp add: text_line_def count_list_0 fmt_02i_no_newline fmt_08x_no_newline
      guiControlText_no_newline guiPropsText_no_newline)

lemma ChangeSet_font: "ChangeSet st_font = []"
  by code_simp

lemma SaveStyle_text_parts:
  "SaveStyle_text rl st =
     text_header
     @ (if customFontLoaded st then text_font_warning @ text_font_line rl st else [])
     @ concat (map text_line (ChangeSet st))"
  by (simp add: SaveStyle_text_eq text_header_def text_font_warning_def text_font_line_def)

lemma text_font_line_st_font: "text_font_line rl0 st_font = ''f 10 1 font.ttf\<newline>''"
  by (simp add: text_font_line_def st_font_def st_fresh_def rl0_def GuiGetStyle_def
      DEFAULT_def TEXT_SIZE_def TEXT_SPACING_def fmt_i_def dec.simps hexdigit_def)

text \<open>
  C7, as stated, has the property lines follow the header and, with a custom font, the
  warning line. With a custom font the source writes one more line after the warning,
  \<open>f <text size> <text spacing> <font file name>\<close>: for \<open>st_font\<close>, which has no changed
  property, the file is the header, the warning and the line \<open>f 10 1 font.ttf\<close>, and
  not the header and the warning alone.
\<close>

theorem C7_text_file_counterexample:
  "customFontLoaded st_font \<and> can_open st_font ''style.rgs'' \<and> ChangeSet st_font = []
   \<and> files (snd (SaveStyle rl0 st_font ''style.rgs'' STYLE_TEXT)) ''style.rgs''
       = Some (Text (text_header @ text_font_warning @ ''f 10 1 font.ttf\<newline>''))
   \<and> files (snd (SaveStyle rl0 st_font ''style.rgs'' STYLE_TEXT)) ''style.rgs''
       \<noteq> Some (Text (text_header @ text_font_warning
                        @ concat (map text_line (ChangeSet st_font))))"
proof -
  have f: "customFontLoaded st_font" "can_open st_font ''style.rgs''"
    by (simp_all add: st_font_def st_fresh_def)
  have s: "files (snd (SaveStyle rl0 st_font ''style.rgs'' STYLE_TEXT)) ''style.rgs''
       = Some (Text (text_header @ text_font_warning @ ''f 10 1 font.ttf\<newline>''))"
    using f
    by (simp add: SaveStyle_cases STYLE_TEXT_def STYLE_BINARY_def SaveStyle_text_parts
        ChangeSet_font text_font_line_st_font)
  show ?thesis
    unfolding s using f by (simp add: ChangeSet_font)
qed

text \<open>
  C7, amended. When the file can be opened, \<open>SaveStyle(fileName, STYLE_TEXT)\<close> succeeds
  and writes the comment header, then, only when a custom font is loaded, the warning
  line followed by the line \<open>f <text size> <text spacing> <font file name>\<close>, then exactly
  one line for each entry of the Change-Set, in order, of the form
  \<open>p <control index, 2 digits> <property index, 2 digits> 0x<value, 8 hex digits>\<close>, four
  spaces, the control's display name, an underscore, then the base property's display
  name when the property index is below \<open>RAYGUI_MAX_PROPS_BASE\<close> and \<open>EXT<nn>\<close> (the
  property index minus \<open>RAYGUI_MAX_PROPS_BASE\<close>, two digits) otherwise, a space and the
  newline.
\<close>

theorem C7_text_file:
  assumes "can_open st fileName"
  shows "fst (SaveStyle rl st fileName STYLE_TEXT)
     \<and> files (snd (SaveStyle rl st fileName STYLE_TEXT)) fileName
         = Some (Text (text_header
             @ (if customFontLoaded st then text_font_warning @ text_font_line rl st else [])
             @ concat (map text_line (ChangeSet st))))
     \<and> list_all (\<lambda>e. case e of (i, j, v) \<Rightarrow>
           text_line e = ''p '' @ fmt_02i i @ '' '' @ fmt_02i j @ '' 0x'' @ fmt_08x v @ ''    ''
               @ guiControlText ! i @ ''_''
               @ (if j < RAYGUI_MAX_PROPS_BASE then guiPropsText ! j
                  else ''EXT'' @ fmt_02i (j - RAYGUI_MAX_PROPS_BASE))
               @ '' \<newline>''
         \<and> length (fmt_02i i) = 2 \<and> length (fmt_02i j) = 2 \<and> length (fmt_08x v) = 8
         \<and> length (fmt_02i (j - RAYGUI_MAX_PROPS_BASE)) = 2
         \<and> count_list (text_line e) (CHR 0x0A) = 1 \<and> last (text_line e) = CHR 0x0A)
       (ChangeSet st)"
proof -
  have a: "fst (SaveStyle rl st fileName STYLE_TEXT)
     \<and> files (snd (SaveStyle rl st fileName STYLE_TEXT)) fileName
         = Some (Text (text_header
             @ (if customFontLoaded st then text_font_warning @ text_font_line rl st else [])
             @ concat (map text_line (ChangeSet st))))"
    using assms
    by (simp add: SaveStyle_cases STYLE_TEXT_def STYLE_BINARY_def SaveStyle_text_parts)
  have b: "text_line (i, j, v) = ''p '' @ fmt_02i i @ '' '' @ fmt_02i j @ '' 0x'' @ fmt_08x v
               @ ''    '' @ guiControlText ! i @ ''_''
               @ (if j < RAYGUI_MAX_PROPS_BASE then guiPropsText ! j
                  else ''EXT'' @ fmt_02i (j - RAYGUI_MAX_PROPS_BASE))
               @ '' \<newline>''
         \<and> length (fmt_02i i) = 2 \<and> length (fmt_02i j) = 2 \<and> length (fmt_08x v) = 8
         \<and> length (fmt_02i (j - RAYGUI_MAX_PROPS_BASE)) = 2
         \<and> count_list (text_line (i, j, v)) (CHR 0x0A) = 1
         \<and> last (text_line (i, j, v)) = CHR 0x0A"
    if "(i, j, v) \<in> set (ChangeSet st)" for i j v
  proof -
    from that ChangeSet_bounds[of st]
    have i: "i < RAYGUI_MAX_CONTROLS"
      and j: "j < RAYGUI_MAX_PROPS_BASE + RAYGUI_MAX_PROPS_EXTENDED"
      by auto
    from i have i': "i < 100" by (simp add: RAYGUI_MAX_CONTROLS_def)
    from j have j': "j < 100" "j - RAYGUI_MAX_PROPS_BASE < 100"
      by (simp_all add: RAYGUI_MAX_PROPS_BASE_def RAYGUI_MAX_PROPS_EXTENDED_def)
    show ?thesis
      using text_line_one_line[OF i, of j v]
      by (simp add: length_fmt_02i[OF i'] length_fmt_02i[OF j'(1)] length_fmt_02i[OF j'(2)]
          length_fmt_08x) (simp add: text_line_def)
  qed
  have c: "list_all (\<lambda>e. case e of (i, j, v) \<Rightarrow>
           text_line e = ''p '' @ fmt_02i i @ '' '' @ fmt_02i j @ '' 0x'' @ fmt_08x v @ ''    ''
               @ guiControlText ! i @ ''_''
               @ (if j < RAYGUI_MAX_PROPS_BASE then guiPropsText ! j
                  else ''EXT'' @ fmt_02i (j - RAYGUI_MAX_PROPS_BASE))
               @ '' \<newline>''
         \<and> length (fmt_02i i) = 2 \<and> length (fmt_02i j) = 2 \<and> length (fmt_08x v) = 8
         \<and> length (fmt_02i (j - RAYGUI_MAX_PROPS_BASE)) = 2
         \<and> count_list (text_line e) (CHR 0x0A) = 1 \<and> last (text_line e) = CHR 0x0A)
       (ChangeSet st)"
    unfolding list_all_iff using b by blast
  from a c show ?thesis by blast
qed

text \<open>The text file for \<open>st_mixed\<close> (no custom font) and the success with a font loaded.\<close>

theorem C7_text_file_witness:
  "can_open st_mixed ''style.rgs''
   \<and> fst (SaveStyle rl0 st_mixed ''style.rgs'' STYLE_TEXT)
   \<and> files (snd (SaveStyle rl0 st_mixed ''style.rgs'' STYLE_TEXT)) ''style.rgs''
       = Some (Text (text_header
           @ ''p 00 01 0x202020ff    DEFAULT_BASE_COLOR_NORMAL \<newline>''
           @ ''p 00 17 0x00000003    DEFAULT_EXT01 \<newline>''
           @ ''p 01 02 0x112233ff    LABEL_TEXT_COLOR_NORMAL \<newline>''
           @ ''p 02 02 0x112233ff    BUTTON_TEXT_COLOR_NORMAL \<newline>''))
   \<and> can_open st_font ''style.rgs''
   \<and> files (snd (SaveStyle rl0 st_font ''style.rgs'' STYLE_TEXT)) ''style.rgs''
       = Some (Text (text_header @ text_font_warning @ ''f 10 1 font.ttf\<newline>''))"
proof -
  have h: "can_open st_mixed ''style.rgs''" "can_open st_font ''style.rgs''"
    by (simp_all add: st_font_def st_fresh_def)
  note t = C7_text_file[OF h(1), of rl0]
  note u = C7_text_file[OF h(2), of rl0]
  have f: "customFontLoaded st_font"
    by (simp add: st_font_def)
  have l: "concat (map text_line (ChangeSet st_mixed))
     = ''p 00 01 0x202020ff    DEFAULT_BASE_COLOR_NORMAL \<newline>''
           @ ''p 00 17 0x00000003    DEFAULT_EXT01 \<newline>''
           @ ''p 01 02 0x112233ff    LABEL_TEXT_COLOR_NORMAL \<newline>''
           @ ''p 02 02 0x112233ff    BUTTON_TEXT_COLOR_NORMAL \<newline>''"
    by (simp add: ChangeSet_mixed render_defs)
  have a: "files (snd (SaveStyle rl0 st_mixed ''style.rgs'' STYLE_TEXT)) ''style.rgs''
       = Some (Text (text_header @ concat (map text_line (ChangeSet st_mixed))))"
    using t by simp
  have b: "files (snd (SaveStyle rl0 st_font ''style.rgs'' STYLE_TEXT)) ''style.rgs''
       = Some (Text (text_header @ text_font_warning @ ''f 10 1 font.ttf\<newline>''))"
    using u f by (simp add: ChangeSet_font text_font_line_st_font)
  from h t a b show ?thesis
    unfolding l by blast
qed

subsection \<open>The bytes of the font atlas in the exported code\<close>

lemma entries_per_line_nonempty: "entries_per_line s n \<noteq> []"
  by (induction s arbitrary: n) auto

lemma entries_per_line_append:
  "entries_per_line (a @ b) n
     = butlast (entries_per_line a n) @ entries_per_line b (last (entries_per_line a n))"
  by (induction a arbitrary: n) (auto simp: entries_per_line_nonempty)

lemma hexdigit_not_x: "hexdigit d \<noteq> CHR ''x''" "CHR ''x'' \<noteq> hexdigit d"
  using hexdigit_mem[of d] by auto

lemma fmt_02x_no_x: "CHR ''x'' \<notin> set (fmt_02x b)" "CHR 0x0A \<notin> set (fmt_02x b)"
  by (simp_all add: fmt_02x_def hexdigit_not_x hexdigit_not_newline)

lemma entries_per_line_plain:
  "CHR ''x'' \<notin> set s \<Longrightarrow> CHR 0x0A \<notin> set s \<Longrightarrow> entries_per_line (s @ t) n = entries_per_line t n"
  by (induction s) auto

lemma epl_lit: "entries_per_line (lit b @ t) n = entries_per_line t (Suc n)"
  using entries_per_line_plain[OF fmt_02x_no_x, of b t "Suc n"]
  by (simp add: lit_def)

lemma epl_piece_break: "entries_per_line (lit b @ '',\<newline>    '') n = [Suc n, 0]"
  by (simp add: epl_lit)

lemma epl_piece_plain: "entries_per_line (lit b @ '', '') n = [Suc n]"
  by (simp add: epl_lit)

lemma epl_final: "entries_per_line (lit b @ '' };\<newline>\<newline>'') n = [Suc n, 0, 0]"
  by (simp add: epl_lit)

lemma epl_loop:
  "entries_per_line (concat (map (piece compData) [0..<Suc k])) 0
     = 1 # replicate (k div 20) 20 @ [k mod 20]"
proof (induction k)
  case 0
  then show ?case
    by (simp add: piece_def BYTES_TEXT_PER_LINE_def epl_piece_break)
next
  case (Suc k)
  have step: "entries_per_line (concat (map (piece compData) [0..<Suc (Suc k)])) 0
       = (1 # replicate (k div 20) 20) @ entries_per_line (piece compData (Suc k)) (k mod 20)"
  proof -
    have "concat (map (piece compData) [0..<Suc (Suc k)])
        = concat (map (piece compData) [0..<Suc k]) @ piece compData (Suc k)"
      by simp
    then have "entries_per_line (concat (map (piece compData) [0..<Suc (Suc k)])) 0
        = butlast (entries_per_line (concat (map (piece compData) [0..<Suc k])) 0)
          @ entries_per_line (piece compData (Suc k))
              (last (entries_per_line (concat (map (piece compData) [0..<Suc k])) 0))"
      by (simp only: entries_per_line_append)
    then show ?thesis
      unfolding Suc.IH by (simp add: butlast_append)
  qed
  show ?case
  proof (cases "Suc k mod 20 = 0")
    case True
    then have a: "Suc (k mod 20) = 20" "Suc k div 20 = Suc (k div 20)"
      by (simp_all add: mod_Suc div_Suc split: if_splits)
    have "entries_per_line (piece compData (Suc k)) (k mod 20) = [20, 0]"
      using True a(1) by (simp add: piece_def BYTES_TEXT_PER_LINE_def epl_piece_break)
    then show ?thesis
      unfolding step a(2) using True by (simp add: replicate_append_same)
  next
    case False
    then have a: "Suc (k mod 20) = Suc k mod 20" "Suc k div 20 = k div 20"
      by (simp_all add: mod_Suc div_Suc split: if_splits)
    have "entries_per_line (piece compData (Suc k)) (k mod 20) = [Suc k mod 20]"
      using False a(1) by (simp add: piece_def BYTES_TEXT_PER_LINE_def epl_piece_plain)
    then show ?thesis
      unfolding step a(2) by simp
  qed
qed
lemma ExportStyleAsCode_fontData_eq:
  assumes "compData \<noteq> []"
  shows "ExportStyleAsCode_fontData compData f
     = Some (f @ concat (map (piece compData) [0..<length compData - 1])
               @ lit (compData ! (length compData - 1)) @ '' };\<newline>\<newline>'')"
proof -
  have b: "(\<lambda>i f. f @ (if i mod BYTES_TEXT_PER_LINE = 0
                  then ''0x'' @ fmt_02x (compData ! i) @ '',\<newline>    ''
                  else ''0x'' @ fmt_02x (compData ! i) @ '', ''))
        = (\<lambda>i f. f @ piece compData i)"
    by (intro ext) (simp add: piece_def lit_def)
  have n: "nat (int (length compData) - 1) = length compData - 1"
    by simp
  have p: "\<not> int (length compData) - 1 < 0"
    using assms by (cases compData) simp_all
  show ?thesis
    unfolding ExportStyleAsCode_fontData_def Let_def b n fold_append_all
    using p by (simp add: lit_def)
qed

lemma entries_fontData:
  "entries_per_line (concat (map (piece compData) [0..<m]) @ lit b @ '' };\<newline>\<newline>'') 0
     = (case m of 0 \<Rightarrow> [1, 0, 0]
        | Suc k \<Rightarrow> 1 # replicate (k div 20) 20 @ [Suc (k mod 20), 0, 0])"
proof (cases m)
  case 0
  then show ?thesis by (simp add: epl_final)
next
  case (Suc k)
  have "entries_per_line (concat (map (piece compData) [0..<Suc k]) @ lit b @ '' };\<newline>\<newline>'') 0
      = butlast (entries_per_line (concat (map (piece compData) [0..<Suc k])) 0)
        @ entries_per_line (lit b @ '' };\<newline>\<newline>'')
            (last (entries_per_line (concat (map (piece compData) [0..<Suc k])) 0))"
    by (simp only: entries_per_line_append)
  then show ?thesis
    unfolding epl_loop Suc by (simp add: butlast_append epl_final)
qed

lemma hexdigit_not_separator: "hexdigit d \<notin> separator_chars"
  using hexdigit_mem[of d] by (auto simp: separator_chars_def)

lemma lit_not_separator: "c \<in> set (lit b) \<Longrightarrow> c \<notin> separator_chars"
proof -
  assume "c \<in> set (lit b)"
  then consider "c = CHR ''0''" | "c = CHR ''x''" | "c = hexdigit (unat b div 16)"
    | "c = hexdigit (unat b mod 16)"
    by (auto simp: lit_def fmt_02x_def)
  then show ?thesis
    by cases (simp_all add: hexdigit_not_separator, simp_all add: separator_chars_def)
qed

lemma filter_lit: "filter (\<lambda>c. c \<notin> separator_chars) (lit b) = lit b"
  by (simp add: filter_id_conv lit_not_separator)

lemma filter_separators:
  "filter (\<lambda>c. c \<notin> separator_chars) '',\<newline>    '' = []"
  "filter (\<lambda>c. c \<notin> separator_chars) '', '' = []"
  "filter (\<lambda>c. c \<notin> separator_chars) '' };\<newline>\<newline>'' = []"
  by (simp_all add: separator_chars_def)

lemma filter_piece: "filter (\<lambda>c. c \<notin> separator_chars) (piece compData i) = lit (compData ! i)"
proof -
  have "filter (\<lambda>c. c \<notin> separator_chars) (if b then '',\<newline>    '' else '', '') = []" for b
    by (cases b) (simp_all only: filter_separators if_True if_False)
  then show ?thesis
    unfolding piece_def filter_append filter_lit by (simp only: append_Nil2)
qed

lemma filter_fontData:
  assumes "compData \<noteq> []"
  shows "filter (\<lambda>c. c \<notin> separator_chars)
       (concat (map (piece compData) [0..<length compData - 1])
         @ lit (compData ! (length compData - 1)) @ '' };\<newline>\<newline>'')
     = concat (map lit compData)"
proof -
  let ?n = "length compData"
  have n: "[0..<?n] = [0..<?n - 1] @ [?n - 1]"
    using assms by (cases compData rule: rev_cases) simp_all
  have fc: "filter (\<lambda>c. c \<notin> separator_chars) (concat (map (piece compData) xs))
      = concat (map (\<lambda>i. lit (compData ! i)) xs)" for xs
    by (induction xs) (simp_all only: filter_piece filter_append concat.simps list.map filter.simps)
  have "filter (\<lambda>c. c \<notin> separator_chars)
       (concat (map (piece compData) [0..<?n - 1]) @ lit (compData ! (?n - 1)) @ '' };\<newline>\<newline>'')
     = concat (map (\<lambda>i. lit (compData ! i)) ([0..<?n - 1] @ [?n - 1]))"
    by (simp only: fc filter_append filter_lit filter_separators map_append concat_append
        list.map concat.simps append_Nil2)
  also have "\<dots> = concat (map lit (map (\<lambda>i. compData ! i) [0..<?n]))"
    unfolding n[symmetric] by (simp add: comp_def)
  also have "\<dots> = concat (map lit compData)"
    by (simp only: map_nth)
  finally show ?thesis .
qed

lemma entries_fontData_40:
  "ExportStyleAsCode_fontData (replicate 40 0x78) [] \<noteq> None
   \<and> entries_per_line (the (ExportStyleAsCode_fontData (replicate 40 0x78) [])) 0
       = [1, 20, 19, 0, 0]"
proof -
  have n: "replicate 40 (0x78 :: byte) \<noteq> []" by simp
  have l: "length (replicate 40 (0x78 :: byte)) - 1 = Suc 38" by simp
  show ?thesis
    unfolding ExportStyleAsCode_fontData_eq[OF n] l option.sel append_Nil entries_fontData
    by simp
qed

text \<open>
  C8, as stated, has 20 byte entries on every source line, whatever the number of bytes.
  For 40 bytes, which would fill two lines of 20, the text that the loop and the closing
  \<open>fprintf\<close> write has three lines with 1, 20 and 19 entries (and the two newlines that
  close the array): the loop breaks the line after the byte at every index divisible by
  20, index 0 included, and the last line takes what is left.
\<close>

theorem C8_font_bytes_counterexample:
  "ExportStyleAsCode_fontData (replicate 40 0x78) [] \<noteq> None
   \<and> entries_per_line (the (ExportStyleAsCode_fontData (replicate 40 0x78) [])) 0
       = [1, 20, 19, 0, 0]
   \<and> entries_per_line (the (ExportStyleAsCode_fontData (replicate 40 0x78) [])) 0
       \<noteq> [BYTES_TEXT_PER_LINE, BYTES_TEXT_PER_LINE, 0, 0]"
  using entries_fontData_40 by (simp add: BYTES_TEXT_PER_LINE_def)

text \<open>
  C8, amended. For every compressed data size greater than zero, the bytes are emitted
  in order as hexadecimal literals of the form \<open>0x\<close> and two digits, separated by commas,
  spaces and newlines; no source line holds more than 20 byte entries, and every line of
  the array between its first and its last line holds exactly 20.
\<close>

theorem C8_font_bytes_layout:
  assumes "compData \<noteq> []"
  shows "\<exists>out. ExportStyleAsCode_fontData compData [] = Some out
     \<and> filter (\<lambda>c. c \<notin> separator_chars) out = concat (map (\<lambda>b. ''0x'' @ fmt_02x b) compData)
     \<and> list_all (\<lambda>n. n \<le> BYTES_TEXT_PER_LINE) (entries_per_line out 0)
     \<and> list_all (\<lambda>n. n = BYTES_TEXT_PER_LINE)
          (butlast (butlast (butlast (tl (entries_per_line out 0)))))"
proof -
  let ?m = "length compData - 1"
  let ?out = "concat (map (piece compData) [0..<?m]) @ lit (compData ! ?m) @ '' };\<newline>\<newline>''"
  have o: "ExportStyleAsCode_fontData compData [] = Some ?out"
    using ExportStyleAsCode_fontData_eq[OF assms, of "[]"] by simp
  have l: "lit = (\<lambda>b. ''0x'' @ fmt_02x b)"
    by (intro ext) (simp add: lit_def)
  have f: "filter (\<lambda>c. c \<notin> separator_chars) ?out = concat (map (\<lambda>b. ''0x'' @ fmt_02x b) compData)"
    using filter_fontData[OF assms] unfolding l .
  have e: "list_all (\<lambda>n. n \<le> BYTES_TEXT_PER_LINE) (entries_per_line ?out 0)
     \<and> list_all (\<lambda>n. n = BYTES_TEXT_PER_LINE)
          (butlast (butlast (butlast (tl (entries_per_line ?out 0)))))"
  proof (cases ?m)
    case 0
    then show ?thesis
      unfolding entries_fontData by (simp add: BYTES_TEXT_PER_LINE_def)
  next
    case (Suc k)
    have "k mod 20 < 20" by simp
    then have "Suc (k mod 20) \<le> 20" by simp
    then show ?thesis
      unfolding entries_fontData Suc
      by (simp add: BYTES_TEXT_PER_LINE_def butlast_append list_all_iff)
  qed
  from o f e show ?thesis by blast
qed

text \<open>For 45 bytes: one entry on the first line, then 20, 20 and 4.\<close>

theorem C8_font_bytes_layout_witness:
  "replicate 45 (0x78 :: byte) \<noteq> []
   \<and> ExportStyleAsCode_fontData (replicate 45 0x78) [] \<noteq> None
   \<and> entries_per_line (the (ExportStyleAsCode_fontData (replicate 45 0x78) [])) 0
       = [1, 20, 20, 4, 0, 0]"
proof -
  have n: "replicate 45 (0x78 :: byte) \<noteq> []" by simp
  from C8_font_bytes_layout[OF n]
  have s: "ExportStyleAsCode_fontData (replicate 45 0x78) [] \<noteq> None"
    by auto
  have l: "length (replicate 45 (0x78 :: byte)) - 1 = Suc 43" by simp
  have e: "entries_per_line (the (ExportStyleAsCode_fontData (replicate 45 0x78) [])) 0
       = [1, 20, 20, 4, 0, 0]"
    unfolding ExportStyleAsCode_fontData_eq[OF n] l option.sel append_Nil entries_fontData
    by (simp add: numeral_2_eq_2)
  from n s e show ?thesis by blast
qed

end
